theory Spec2Isabelle
  imports Main "HOL-Library.Word"
begin

section \<open>The broccoli argument binder\<close>

text \<open>
  A shallow embedding of the environment-aware variant of the package:
  \<^verbatim>\<open>buildCommand\<close>, \<^verbatim>\<open>bindCommand\<close>, \<^verbatim>\<open>setValue\<close>, \<^verbatim>\<open>init\<close>, \<^verbatim>\<open>NewApp\<close>,
  \<^verbatim>\<open>App.Help\<close>, \<^verbatim>\<open>App.Bind\<close> and \<^verbatim>\<open>Bind\<close>. Go strings are byte strings and
  are modelled as \<^typ>\<open>string\<close>. Values reached through \<^verbatim>\<open>reflect\<close> are
  modelled as trees: a pointer holds its pointee, so two pointers never share
  one.
\<close>

subsection \<open>What the Go runtime and standard library provide\<close>

text \<open>
  The functions of the operating system and of the standard library whose
  results the package only passes on are parameters:
  \<^verbatim>\<open>os.LookupEnv\<close>, \<^verbatim>\<open>strconv.ParseFloat(s, 64)\<close> (a float64 is its 64-bit
  pattern, \<open>None\<close> is any error), the conversion \<^verbatim>\<open>float32(x)\<close> that
  \<^verbatim>\<open>reflect.Value.SetFloat\<close> applies to a float32 destination,
  \<^verbatim>\<open>strings.ToUpper\<close>, and the name \<^verbatim>\<open>NewApp\<close> finds for the executable
  (\<^verbatim>\<open>os.Executable()\<close>, else \<^verbatim>\<open>os.Args[0]\<close>, else \<^verbatim>\<open>"unknown"\<close>; without a
  trailing \<^verbatim>\<open>.exe\<close> and without its directory).
\<close>

record runtime =
  LookupEnv :: "string \<Rightarrow> string option"
  ParseFloat :: "string \<Rightarrow> 64 word option"
  Float32 :: "64 word \<Rightarrow> 64 word"
  ToUpper :: "string \<Rightarrow> string"
  Executable :: string

subsection \<open>Types and values as reflect shows them\<close>

text \<open>
  \<open>W\<close> is the platform-sized \<^verbatim>\<open>int\<close>/\<^verbatim>\<open>uint\<close> (64 bits is assumed).
  \<open>TOther k\<close> is any type of another kind \<open>k\<close> (map, array, func, ...).
\<close>

datatype width = W | W8 | W16 | W32 | W64

datatype fwidth = F32 | F64

fun bits :: "width \<Rightarrow> nat" where
  "bits W = 64"
| "bits W8 = 8"
| "bits W16 = 16"
| "bits W32 = 32"
| "bits W64 = 64"

datatype gotype =
    TBool
  | TString
  | TInt width
  | TUint width
  | TFloat fwidth
  | TSlice gotype
  | TPtr gotype
  | TStruct string "structField list"
  | TOther string
and structField =
    StructField (sf_Name: string) (sf_Exported: bool) (sf_Type: gotype)
                (sf_Tag: "(string \<times> string) list")

text \<open>
  A slice value carries its element type, its elements (\<^verbatim>\<open>Len\<close> of them)
  and the rest of its backing array (so \<^verbatim>\<open>Cap\<close> is the length of both).
  A pointer carries its element type and, unless nil, its pointee. A struct
  carries its type's name and fields, and its field values. A struct field
  has a name, is exported or not, and has a type and a tag; the tag is the
  list of its key-value pairs, in which \<^verbatim>\<open>Lookup\<close> finds the first with the key.
\<close>

datatype govalue =
    VBool bool
  | VString string
  | VInt width int
  | VUint width nat
  | VFloat fwidth "64 word"
  | VSlice gotype "govalue list" "govalue list"
  | VPtr gotype "govalue option"
  | VStruct string "structField list" "govalue list"
  | VOther string

text \<open>The zero value of a type: what \<^verbatim>\<open>reflect.New\<close> and \<^verbatim>\<open>reflect.MakeSlice\<close> allocate.\<close>

primrec zero :: "gotype \<Rightarrow> govalue" and zeroField :: "structField \<Rightarrow> govalue" where
  "zero TBool = VBool False"
| "zero TString = VString []"
| "zero (TInt w) = VInt w 0"
| "zero (TUint w) = VUint w 0"
| "zero (TFloat w) = VFloat w 0"
| "zero (TSlice t) = VSlice t [] []"
| "zero (TPtr t) = VPtr t None"
| "zero (TStruct n fs) = VStruct n fs (map zeroField fs)"
| "zero (TOther k) = VOther k"
| "zeroField (StructField nm ex t tg) = zero t"

text \<open>
  The errors of the package; \<open>ErrParseBool s\<close> is the error of
  \<^verbatim>\<open>strconv.ParseBool(s)\<close>. The messages built with \<^verbatim>\<open>fmt.Errorf\<close> are kept as
  their arguments: \<open>ErrRequires name kind\<close> is \<^verbatim>\<open>"%s requires %s"\<close>,
  \<open>ErrParseArg v kind\<close> is \<^verbatim>\<open>"can not parse %s as %s"\<close>, \<open>ErrParseEnv env v kind\<close>
  is \<^verbatim>\<open>"can not parse (env %s) %s as %s"\<close>, \<open>ErrParseDefault v kind\<close> is
  \<^verbatim>\<open>"can not parse (default value) %s as %s"\<close> and \<open>ErrRequiredMissing name\<close> is
  \<^verbatim>\<open>"required parameter %s is missing"\<close>. A run-time panic is an error too.
\<close>

datatype error =
    ErrTypeNotSupported
  | ErrParseBool string
  | ErrTypeMismatch
  | ErrHelp
  | errCanNotParse
  | errCanNotSet
  | ErrRequires string string
  | ErrParseArg string string
  | ErrParseEnv string string string
  | ErrParseDefault string string
  | ErrRequiredMissing string
  | Panic string

subsection \<open>strings\<close>

definition HasPrefix :: "string \<Rightarrow> string \<Rightarrow> bool" where
  "HasPrefix s p = (take (length p) s = p)"

definition TrimPrefix :: "string \<Rightarrow> string \<Rightarrow> string" where
  "TrimPrefix s p = (if HasPrefix s p then drop (length p) s else s)"

text \<open>\<^verbatim>\<open>strings.Split(s, ",")\<close>: one more substring than there are commas.\<close>

fun Split :: "string \<Rightarrow> string list" where
  "Split [] = [[]]"
| "Split (c # cs) =
     (if c = CHR '','' then [] # Split cs
      else (case Split cs of [] \<Rightarrow> [[c]] | x # xs \<Rightarrow> (c # x) # xs))"

subsection \<open>strconv.ParseUint and strconv.ParseInt with an explicit base, 64 bits\<close>

datatype numError = ErrSyntax | ErrRange

text \<open>A digit's value: \<^verbatim>\<open>c - '0'\<close>, or \<^verbatim>\<open>lower(c) - 'a' + 10\<close> with \<^verbatim>\<open>lower(c) = c | 0x20\<close>.\<close>

definition digitVal :: "char \<Rightarrow> nat option" where
  "digitVal c =
     (let b = (of_char c :: nat); l = or b 32 in
      if 48 \<le> b \<and> b \<le> 57 then Some (b - 48)
      else if 97 \<le> l \<and> l \<le> 122 then Some (l - 97 + 10)
      else None)"

definition maxUint64 :: nat where
  "maxUint64 = 2 ^ 64 - 1"

fun parseDigits :: "nat \<Rightarrow> nat \<Rightarrow> string \<Rightarrow> numError + nat" where
  "parseDigits base n [] = Inr n"
| "parseDigits base n (c # cs) =
     (case digitVal c of
        None \<Rightarrow> Inl ErrSyntax
      | Some d \<Rightarrow>
          if d \<ge> base then Inl ErrSyntax
          else if n \<ge> maxUint64 div base + 1 then Inl ErrRange
          else (let n0 = n * base; n1 = (n0 + d) mod 2 ^ 64 in
                if n1 < n0 \<or> n1 > maxUint64 then Inl ErrRange
                else parseDigits base n1 cs))"

definition ParseUint :: "string \<Rightarrow> nat \<Rightarrow> numError + nat" where
  "ParseUint s base = (if s = [] then Inl ErrSyntax else parseDigits base 0 s)"

definition ParseInt :: "string \<Rightarrow> nat \<Rightarrow> numError + int" where
  "ParseInt s base =
     (if s = [] then Inl ErrSyntax
      else
        (let neg = (hd s = CHR ''-'');
             s1 = (if hd s = CHR ''+'' \<or> hd s = CHR ''-'' then tl s else s);
             cutoff = (2::nat) ^ 63
         in case ParseUint s1 base of
              Inl ErrSyntax \<Rightarrow> Inl ErrSyntax
            | Inl ErrRange \<Rightarrow> Inl ErrRange
            | Inr un \<Rightarrow>
                if \<not> neg \<and> un \<ge> cutoff then Inl ErrRange
                else if neg \<and> un > cutoff then Inl ErrRange
                else Inr (if neg then - int un else int un)))"

subsection \<open>Stripping indirection\<close>

text \<open>
  The loop that opens \<^verbatim>\<open>bindCommand\<close> and \<^verbatim>\<open>setValue\<close>:
  \<^verbatim>\<open>for dst.Kind() == reflect.Pointer { if dst.IsNil() { dst.Set(reflect.New(...)) }; dst = dst.Elem() }\<close>.
  The boolean is \<^verbatim>\<open>CanSet\<close>: \<^verbatim>\<open>Set\<close> panics on a value that cannot be set, and
  what \<^verbatim>\<open>Elem\<close> returns can be set. (Flags and subcommands are fields the
  builder found exported, so reflect's read-only mark never arises.) The
  result is the value the loop ends on, whether it can be set, and how the
  value the loop started from is rebuilt around a new inner value.
\<close>

primrec tdepth :: "gotype \<Rightarrow> nat" where
  "tdepth TBool = 0"
| "tdepth TString = 0"
| "tdepth (TInt w) = 0"
| "tdepth (TUint w) = 0"
| "tdepth (TFloat w) = 0"
| "tdepth (TSlice t) = Suc (tdepth t)"
| "tdepth (TPtr t) = Suc (tdepth t)"
| "tdepth (TStruct n fs) = 0"
| "tdepth (TOther k) = 0"

fun vdepth :: "govalue \<Rightarrow> nat" where
  "vdepth (VPtr t None) = Suc (tdepth t)"
| "vdepth (VPtr t (Some v)) = Suc (max (tdepth t) (vdepth v))"
| "vdepth (VSlice t es sp) =
     Suc (max (tdepth t) (max (foldr max (map vdepth es) 0) (foldr max (map vdepth sp) 0)))"
| "vdepth _ = 0"

lemma vdepth_zero: "vdepth (zero t) \<le> tdepth t"
  by (cases t) auto

lemma foldr_max_ge: "x \<in> set xs \<Longrightarrow> f x \<le> foldr max (map f xs) (0::nat)"
  by (induction xs) auto

function (sequential) derefAlloc ::
  "bool \<Rightarrow> govalue \<Rightarrow> error + (bool \<times> govalue \<times> (govalue \<Rightarrow> govalue))" where
  "derefAlloc canSet (VPtr t None) =
     (if canSet then
        (case derefAlloc True (zero t) of
           Inl e \<Rightarrow> Inl e
         | Inr (a, v, rebuild) \<Rightarrow> Inr (a, v, \<lambda>x. VPtr t (Some (rebuild x))))
      else Inl (Panic ''reflect: reflect.Value.Set using unaddressable value''))"
| "derefAlloc canSet (VPtr t (Some u)) =
     (case derefAlloc True u of
        Inl e \<Rightarrow> Inl e
      | Inr (a, v, rebuild) \<Rightarrow> Inr (a, v, \<lambda>x. VPtr t (Some (rebuild x))))"
| "derefAlloc canSet v = Inr (canSet, v, \<lambda>x. x)"
  by pat_completeness auto
termination
proof (relation "measure (\<lambda>(a, v). vdepth v)")
  show "wf (measure (\<lambda>(a, v). vdepth v))" by simp
next
  fix canSet t
  assume "canSet"
  have "vdepth (zero t) \<le> tdepth t" by (rule vdepth_zero)
  then show "((True, zero t), (canSet, VPtr t None)) \<in> measure (\<lambda>(a, v). vdepth v)" by simp
next
  fix canSet :: bool and t u
  show "((True, u), (canSet, VPtr t (Some u))) \<in> measure (\<lambda>(a, v). vdepth v)" by simp
qed

lemma derefAlloc_vdepth:
  "derefAlloc a v = Inr (b, u, rb) \<Longrightarrow> vdepth u \<le> vdepth v"
proof (induction a v arbitrary: b u rb rule: derefAlloc.induct)
  case (1 canSet t)
  then show ?case
    using vdepth_zero [of t] by (fastforce split: if_splits sum.splits prod.splits)
next
  case (2 canSet t w)
  then show ?case by (fastforce split: sum.splits prod.splits)
qed auto

subsection \<open>setValue\<close>

text \<open>The radix of an integer text and the text handed to the parser.\<close>

definition sniffRadix :: "string \<Rightarrow> nat \<times> string" where
  "sniffRadix s =
     (if HasPrefix s ''0x'' \<or> HasPrefix s ''0X'' \<or> HasPrefix s ''-0x'' \<or> HasPrefix s ''-0X''
         \<or> HasPrefix s ''+0x'' \<or> HasPrefix s ''+0X'' then (16, drop 2 s)
      else if HasPrefix s ''0b'' \<or> HasPrefix s ''0B'' \<or> HasPrefix s ''-0b'' \<or> HasPrefix s ''-0B''
         \<or> HasPrefix s ''+0b'' \<or> HasPrefix s ''+0B'' then (2, drop 2 s)
      else if HasPrefix s ''0o'' \<or> HasPrefix s ''0O'' \<or> HasPrefix s ''-0o'' \<or> HasPrefix s ''-0O''
         \<or> HasPrefix s ''+0o'' \<or> HasPrefix s ''+0O'' then (8, drop 2 s)
      else (10, s))"

text \<open>\<^verbatim>\<open>SetInt\<close> and \<^verbatim>\<open>SetUint\<close> store the 64-bit value truncated to the destination's width.\<close>

definition SetInt :: "width \<Rightarrow> int \<Rightarrow> govalue" where
  "SetInt w x = VInt w (signed_take_bit (bits w - 1) x)"

definition SetUint :: "width \<Rightarrow> nat \<Rightarrow> govalue" where
  "SetUint w x = VUint w (take_bit (bits w) x)"

definition SetFloat :: "runtime \<Rightarrow> fwidth \<Rightarrow> 64 word \<Rightarrow> govalue" where
  "SetFloat rt w x = VFloat w (if w = F32 then Float32 rt x else x)"

text \<open>
  The loop over the elements of a slice: \<open>f\<close> is \<^verbatim>\<open>setValue\<close> on
  \<^verbatim>\<open>dst.Index(i)\<close>; the first failure ends the loop and is returned.
\<close>

fun setElems ::
  "(govalue \<Rightarrow> string \<Rightarrow> govalue \<times> error option) \<Rightarrow> govalue list \<Rightarrow> string list
    \<Rightarrow> govalue list \<times> error option" where
  "setElems f (e # es) (s # ss) =
     (case f e s of
        (e', Some err) \<Rightarrow> (e' # es, Some err)
      | (e', None) \<Rightarrow> (case setElems f es ss of (es', r) \<Rightarrow> (e' # es', r)))"
| "setElems f es ss = (es, None)"

lemma setElems_cong [fundef_cong]:
  "es = es' \<Longrightarrow> ss = ss' \<Longrightarrow> (\<And>e s. e \<in> set es' \<Longrightarrow> f e s = g e s)
    \<Longrightarrow> setElems f es ss = setElems g es' ss'"
proof (induction g arbitrary: es ss rule: setElems.induct[of _ _ es' ss'])
  case (1 f e es s ss)
  then show ?case by (auto split: prod.splits option.splits)
qed auto

text \<open>The slice a sequence assignment works on: reallocated when \<^verbatim>\<open>Cap\<close> is too small, else \<^verbatim>\<open>SetLen\<close>.\<close>

definition resize :: "gotype \<Rightarrow> govalue list \<Rightarrow> govalue list \<Rightarrow> nat \<Rightarrow> govalue list \<times> govalue list" where
  "resize t es sp n =
     (if length es + length sp < n then (replicate n (zero t), [])
      else (take n (es @ sp), drop n (es @ sp)))"

function setValue :: "runtime \<Rightarrow> bool \<Rightarrow> govalue \<Rightarrow> string \<Rightarrow> govalue \<times> error option" where
  "setValue rt canSet dst0 str =
     (case derefAlloc canSet dst0 of
        Inl p \<Rightarrow> (dst0, Some p)
      | Inr (settable, dst, rebuild) \<Rightarrow>
          if \<not> settable then (rebuild dst, Some errCanNotSet)
          else
            (case dst of
               VString _ \<Rightarrow> (rebuild (VString str), None)
             | VInt w _ \<Rightarrow>
                 (case ParseInt (snd (sniffRadix str)) (fst (sniffRadix str)) of
                    Inl _ \<Rightarrow> (rebuild dst, Some errCanNotParse)
                  | Inr x \<Rightarrow> (rebuild (SetInt w x), None))
             | VUint w _ \<Rightarrow>
                 (case ParseUint (snd (sniffRadix str)) (fst (sniffRadix str)) of
                    Inl _ \<Rightarrow> (rebuild dst, Some errCanNotParse)
                  | Inr x \<Rightarrow> (rebuild (SetUint w x), None))
             | VFloat w _ \<Rightarrow>
                 (case ParseFloat rt str of
                    None \<Rightarrow> (rebuild dst, Some errCanNotParse)
                  | Some x \<Rightarrow> (rebuild (SetFloat rt w x), None))
             | VSlice t es sp \<Rightarrow>
                 (case setElems (\<lambda>e s. setValue rt True e s)
                         (fst (resize t es sp (length (Split str)))) (Split str) of
                    (es', r) \<Rightarrow>
                      (rebuild (VSlice t es' (snd (resize t es sp (length (Split str))))), r))
             | _ \<Rightarrow> (rebuild dst, None)))"
  by pat_completeness auto
termination
proof (relation "measure (\<lambda>(rt, a, v, s). vdepth v)")
  show "wf (measure (\<lambda>(rt, a, v, s). vdepth v))" by simp
next
  fix rt :: "runtime" and canSet :: bool and dst0 :: govalue and str :: string
    and x2 :: "bool \<times> govalue \<times> (govalue \<Rightarrow> govalue)" and settable :: bool
    and y :: "govalue \<times> (govalue \<Rightarrow> govalue)" and dst :: govalue
    and rebuild :: "govalue \<Rightarrow> govalue" and t :: gotype and es sp :: "govalue list"
    and e :: govalue and s :: string
  assume d: "derefAlloc canSet dst0 = Inr x2" "(settable, y) = x2" "(dst, rebuild) = y"
    and v: "dst = VSlice t es sp"
    and m: "e \<in> set (fst (resize t es sp (length (Split str))))"
  from d v have "derefAlloc canSet dst0 = Inr (settable, VSlice t es sp, rebuild)" by auto
  then have le: "vdepth (VSlice t es sp) \<le> vdepth dst0" by (rule derefAlloc_vdepth)
  have "vdepth e < vdepth (VSlice t es sp)"
  proof (cases "length es + length sp < length (Split str)")
    case True
    with m have "e = zero t" by (auto simp: resize_def)
    then show ?thesis using vdepth_zero [of t] by simp
  next
    case False
    with m have "e \<in> set (es @ sp)" by (auto simp: resize_def dest: in_set_takeD)
    then have "e \<in> set es \<or> e \<in> set sp" by simp
    then show ?thesis
      using foldr_max_ge [of e es vdepth] foldr_max_ge [of e sp vdepth] by auto
  qed
  with le show "((rt, True, e, s), (rt, canSet, dst0, str)) \<in> measure (\<lambda>(rt, a, v, s). vdepth v)"
    by simp
qed

declare setValue.simps [simp del]

subsection \<open>The schema\<close>

text \<open>
  \<^verbatim>\<open>fieldMeta\<close>, without its \<^verbatim>\<open>Type\<close> field, which nothing sets or reads.
\<close>

record fieldMeta =
  Name :: string
  Kind :: string
  About :: string
  Index :: nat
  Default :: "string option"
  Env :: "string option"
  Alias :: "string option"
  Required :: bool

text \<open>
  \<^verbatim>\<open>command\<close>. \<open>initOnce\<close> is whether the node's \<^verbatim>\<open>sync.Once\<close> has run. The
  \<^verbatim>\<open>Parent\<close> pointer is read only to walk up the \<^verbatim>\<open>Command\<close> names of the
  ancestors, so \<open>Parent\<close> is that list of names, nearest ancestor first, or
  \<open>None\<close> for nil.
\<close>

datatype command = Cmd
  (initOnce: bool)
  (Parent: "string list option")
  (Type: gotype)
  (Command: string)
  (CmdIndex: nat)
  (Author: "string option")
  (CmdAbout: "string option")
  (LongAbout: "string option")
  (Version: "string option")
  (Flags: "fieldMeta list")
  (SubCommands: "command list")
  (Help: string)

subsection \<open>buildCommand\<close>

fun stripPtr :: "gotype \<Rightarrow> gotype" where
  "stripPtr (TPtr t) = stripPtr t"
| "stripPtr t = t"

text \<open>\<^verbatim>\<open>Kind().String()\<close>.\<close>

fun widthString :: "width \<Rightarrow> string" where
  "widthString W = []"
| "widthString W8 = ''8''"
| "widthString W16 = ''16''"
| "widthString W32 = ''32''"
| "widthString W64 = ''64''"

fun kindString :: "gotype \<Rightarrow> string" where
  "kindString TBool = ''bool''"
| "kindString TString = ''string''"
| "kindString (TInt w) = ''int'' @ widthString w"
| "kindString (TUint w) = ''uint'' @ widthString w"
| "kindString (TFloat F32) = ''float32''"
| "kindString (TFloat F64) = ''float64''"
| "kindString (TSlice t) = ''slice''"
| "kindString (TPtr t) = ''ptr''"
| "kindString (TStruct n fs) = ''struct''"
| "kindString (TOther k) = k"

text \<open>\<^verbatim>\<open>strconv.ParseBool\<close>; \<open>None\<close> is its error.\<close>

definition ParseBool :: "string \<Rightarrow> bool option" where
  "ParseBool s =
     (if s \<in> {''1'', ''t'', ''T'', ''TRUE'', ''true'', ''True''} then Some True
      else if s \<in> {''0'', ''f'', ''F'', ''FALSE'', ''false'', ''False''} then Some False
      else None)"

text \<open>A field whose type is a struct without fields carries the command's own tags.\<close>

definition isMarker :: "gotype \<Rightarrow> bool" where
  "isMarker t = (case t of TStruct n fs \<Rightarrow> length fs = 0 | _ \<Rightarrow> False)"

definition setMeta :: "(string \<times> string) list \<Rightarrow> command \<Rightarrow> command" where
  "setMeta st c =
     (case c of Cmd once p ty name idx au ab la ve fl subs h \<Rightarrow>
        Cmd once p ty
          (case map_of st ''command'' of Some v \<Rightarrow> v | None \<Rightarrow> name) idx
          (case map_of st ''author'' of Some v \<Rightarrow> Some v | None \<Rightarrow> au)
          (case map_of st ''about'' of Some v \<Rightarrow> Some v | None \<Rightarrow> ab)
          (case map_of st ''long_about'' of Some v \<Rightarrow> Some v | None \<Rightarrow> la)
          (case map_of st ''version'' of Some v \<Rightarrow> Some v | None \<Rightarrow> ve)
          fl subs h)"

text \<open>\<^verbatim>\<open>subcmd.Index = i; cmd.SubCommands = append(cmd.SubCommands, *subcmd)\<close>.\<close>

definition addSubCommand :: "nat \<Rightarrow> command \<Rightarrow> command \<Rightarrow> command" where
  "addSubCommand i subcmd c =
     (case c of Cmd once p ty name idx au ab la ve fl subs h \<Rightarrow>
        (case subcmd of Cmd once' p' ty' name' idx' au' ab' la' ve' fl' subs' h' \<Rightarrow>
           Cmd once p ty name idx au ab la ve fl
             (subs @ [Cmd once' p' ty' name' i au' ab' la' ve' fl' subs' h']) h))"

definition addFlag :: "fieldMeta \<Rightarrow> command \<Rightarrow> command" where
  "addFlag fm c =
     (case c of Cmd once p ty name idx au ab la ve fl subs h \<Rightarrow>
        Cmd once p ty name idx au ab la ve (fl @ [fm]) subs h)"

text \<open>The descriptor of a field with a \<^verbatim>\<open>flag\<close> tag, at index \<open>i\<close>.\<close>

definition buildFlag :: "structField \<Rightarrow> nat \<Rightarrow> error + fieldMeta" where
  "buildFlag f i =
     (case (case map_of (sf_Tag f) ''required'' of None \<Rightarrow> Some False | Some v \<Rightarrow> ParseBool v) of
        None \<Rightarrow> Inl (ErrParseBool (the (map_of (sf_Tag f) ''required'')))
      | Some req \<Rightarrow>
          Inr \<lparr>Name = the (map_of (sf_Tag f) ''flag''),
               Kind = kindString (stripPtr (sf_Type f)),
               About = (case map_of (sf_Tag f) ''about'' of Some v \<Rightarrow> v | None \<Rightarrow> []),
               Index = i,
               Default = map_of (sf_Tag f) ''default'',
               Env = map_of (sf_Tag f) ''env'',
               Alias = map_of (sf_Tag f) ''alias'',
               Required = req\<rparr>)"

text \<open>
  The loop over the fields, from index \<open>i\<close>; \<open>build\<close> is the recursive call of
  \<^verbatim>\<open>buildCommand\<close> for a field with a \<^verbatim>\<open>subcommand\<close> tag.
\<close>

fun buildFields ::
  "(gotype \<Rightarrow> string \<Rightarrow> error + command) \<Rightarrow> structField list \<Rightarrow> nat \<Rightarrow> command \<Rightarrow> error + command" where
  "buildFields build [] i cmd = Inr cmd"
| "buildFields build (f # fs) i cmd =
     (if isMarker (sf_Type f) then buildFields build fs (i + 1) (setMeta (sf_Tag f) cmd)
      else if \<not> sf_Exported f then buildFields build fs (i + 1) cmd
      else
        (case map_of (sf_Tag f) ''subcommand'' of
           Some v \<Rightarrow>
             (case build (sf_Type f) v of
                Inl err \<Rightarrow> Inl err
              | Inr subcmd \<Rightarrow> buildFields build fs (i + 1) (addSubCommand i subcmd cmd))
         | None \<Rightarrow>
             (case map_of (sf_Tag f) ''flag'' of
                Some v \<Rightarrow>
                  (case buildFlag f i of
                     Inl err \<Rightarrow> Inl err
                   | Inr fm \<Rightarrow> buildFields build fs (i + 1) (addFlag fm cmd))
              | None \<Rightarrow> buildFields build fs (i + 1) cmd)))"

lemma buildFields_cong [fundef_cong]:
  "fs = fs' \<Longrightarrow> i = i' \<Longrightarrow> cmd = cmd'
    \<Longrightarrow> (\<And>f v. f \<in> set fs' \<Longrightarrow> build (sf_Type f) v = build' (sf_Type f) v)
    \<Longrightarrow> buildFields build fs i cmd = buildFields build' fs' i' cmd'"
proof (induction fs' arbitrary: fs i i' cmd cmd')
  case Nil
  then show ?case by simp
next
  case (Cons f fs')
  then show ?case by (auto split: option.splits sum.splits)
qed

text \<open>
  A subcommand's \<^verbatim>\<open>Parent\<close> points to the node under construction, whose name a
  marker field met later may still change; what is read through the pointer
  is the name the node ends with, \<open>finalCommand\<close>.
\<close>

definition finalCommand :: "structField list \<Rightarrow> string \<Rightarrow> string" where
  "finalCommand fs commandName =
     fold (\<lambda>f name. if isMarker (sf_Type f)
                     then (case map_of (sf_Tag f) ''command'' of Some v \<Rightarrow> v | None \<Rightarrow> name)
                     else name)
       fs commandName"

primrec tsize :: "gotype \<Rightarrow> nat" and fsize :: "structField \<Rightarrow> nat" where
  "tsize TBool = 0"
| "tsize TString = 0"
| "tsize (TInt w) = 0"
| "tsize (TUint w) = 0"
| "tsize (TFloat w) = 0"
| "tsize (TSlice t) = Suc (tsize t)"
| "tsize (TPtr t) = Suc (tsize t)"
| "tsize (TStruct n fs) = Suc (sum_list (map fsize fs))"
| "tsize (TOther k) = 0"
| "fsize (StructField nm ex t tg) = tsize t"

lemma tsize_stripPtr: "tsize (stripPtr t) \<le> tsize t"
  by (induction t rule: stripPtr.induct) auto

lemma tsize_field: "f \<in> set fs \<Longrightarrow> tsize (sf_Type f) < tsize (TStruct n fs)"
proof -
  assume "f \<in> set fs"
  then have "fsize f \<le> sum_list (map fsize fs)" by (simp add: member_le_sum_list)
  then show ?thesis by (cases f) simp
qed

function buildCommand :: "gotype \<Rightarrow> string list option \<Rightarrow> string \<Rightarrow> error + command" where
  "buildCommand rt parent commandName =
     (case stripPtr rt of
        TStruct n fs \<Rightarrow>
          buildFields
            (\<lambda>t v. buildCommand t
                     (Some (finalCommand fs commandName
                            # (case parent of Some ps \<Rightarrow> ps | None \<Rightarrow> []))) v)
            fs 0 (Cmd False parent (TStruct n fs) commandName 0 None None None None [] [] [])
      | _ \<Rightarrow> Inl ErrTypeNotSupported)"
  by pat_completeness auto
termination
proof (relation "measure (\<lambda>(rt, p, n). tsize rt)")
  show "wf (measure (\<lambda>(rt, p, n). tsize rt))" by simp
next
  fix rt :: gotype and parent :: "string list option" and commandName n :: string
    and fs :: "structField list" and f :: structField and v :: string
  assume s: "stripPtr rt = TStruct n fs" and m: "f \<in> set fs"
  from tsize_field [OF m, of n] tsize_stripPtr [of rt] s
  have "tsize (sf_Type f) < tsize rt" by simp
  then show "((sf_Type f, Some (finalCommand fs commandName
                                # (case parent of Some ps \<Rightarrow> ps | None \<Rightarrow> [])), v),
           (rt, parent, commandName)) \<in> measure (\<lambda>(rt, p, n). tsize rt)"
    by simp
qed

declare buildCommand.simps [simp del]

subsection \<open>init: the help text, rendered once\<close>

definition spaces :: "nat \<Rightarrow> string" where
  "spaces n = replicate n CHR '' ''"

text \<open>The command path of the usage line: the node's name after its ancestors', root first.\<close>

fun joinSpace :: "string list \<Rightarrow> string" where
  "joinSpace [] = []"
| "joinSpace [s] = s"
| "joinSpace (s # ss) = s @ '' '' @ joinSpace ss"

definition usagePath :: "string list option \<Rightarrow> string \<Rightarrow> string" where
  "usagePath parent name =
     (case parent of
        Some ps \<Rightarrow> joinSpace (rev (name # ps))
      | None \<Rightarrow> name)"

definition usageRequired :: "runtime \<Rightarrow> fieldMeta \<Rightarrow> string" where
  "usageRequired rt f =
     (if Required f then '' --'' @ Name f @ '' <'' @ ToUpper rt (Name f) @ ''>'' else [])"

definition optionName :: "fieldMeta \<Rightarrow> string" where
  "optionName f =
     [CHR 0x09] @ (case Alias f of Some a \<Rightarrow> ''-'' @ a @ '', '' | None \<Rightarrow> []) @ ''--'' @ Name f @ '' ''"

definition helpOption :: string where
  "helpOption = [CHR 0x09] @ ''-h, --help ''"

definition maxLength :: "nat \<Rightarrow> string list \<Rightarrow> nat" where
  "maxLength start names = fold (\<lambda>s m. if length s > m then length s else m) names start"

definition optionLine :: "nat \<Rightarrow> fieldMeta \<Rightarrow> string" where
  "optionLine MaxLength f =
     optionName f @ spaces (MaxLength - length (optionName f)) @ About f @ '' ''
       @ (case Default f of Some d \<Rightarrow> ''[default: '' @ d @ '']'' | None \<Rightarrow> [])
       @ (case Env f of Some e \<Rightarrow> '' [env: '' @ e @ '']'' | None \<Rightarrow> [])
       @ (if Required f then '' (required)'' else [])
       @ [CHR 0x0A]"

definition commandLine :: "nat \<Rightarrow> command \<Rightarrow> string" where
  "commandLine MaxLength s =
     [CHR 0x09] @ Command s @ spaces (MaxLength - length (Command s))
       @ (case CmdAbout s of Some a \<Rightarrow> a | None \<Rightarrow> []) @ [CHR 0x0A]"

definition renderHelp ::
  "runtime \<Rightarrow> string list option \<Rightarrow> string \<Rightarrow> fieldMeta list \<Rightarrow> command list \<Rightarrow> string" where
  "renderHelp rt parent name flags subs =
     ''Usage: '' @ [CHR 0x0A, CHR 0x09] @ usagePath parent name
       @ (if length subs > 0 then '' <COMMAND>'' else [])
       @ (if length flags > 0 then '' [OPTIONS]'' @ concat (map (usageRequired rt) flags) else [])
       @ '' [ARGUEMENTS]'' @ [CHR 0x0A, CHR 0x0A]
       @ (if length flags > 0 then
            (let MaxLength = maxLength (length helpOption) (map optionName flags) + 4 in
             ''Options:'' @ [CHR 0x0A] @ concat (map (optionLine MaxLength) flags)
               @ helpOption @ spaces (MaxLength - length helpOption)
               @ ''Print this help message and exit'' @ [CHR 0x0A])
          else [])
       @ [CHR 0x0A]
       @ (if length subs > 0 then
            (let MaxLength = maxLength 0 (map Command subs) + 4 in
             ''Commands:'' @ [CHR 0x0A] @ concat (map (commandLine MaxLength) subs))
          else [])"

text \<open>
  \<open>initFrom rt p a\<close> is \<^verbatim>\<open>a.Parent = p; a.init()\<close>: the text is rendered only if
  the node's \<^verbatim>\<open>sync.Once\<close> has not run, then every subcommand gets this node as
  its parent and is initialised in turn.
\<close>

fun initFrom :: "runtime \<Rightarrow> string list option \<Rightarrow> command \<Rightarrow> command" where
  "initFrom rt p (Cmd once p0 ty name idx au ab la ve flags subs text) =
     Cmd True p ty name idx au ab la ve flags
       (map (initFrom rt (Some (name # (case p of Some ps \<Rightarrow> ps | None \<Rightarrow> [])))) subs)
       (if once then text else renderHelp rt p name flags subs)"

definition init :: "runtime \<Rightarrow> command \<Rightarrow> command" where
  "init rt a = initFrom rt (Parent a) a"

subsection \<open>bindCommand: the flag scan\<close>

text \<open>
  \<^verbatim>\<open>setValue\<close> into the field at \<open>idx\<close> followed by the \<^verbatim>\<open>switch err\<close> that the scan
  and the resolution pass share: a parse failure becomes \<open>parseErr\<close>,
  \<^verbatim>\<open>errCanNotSet\<close> is ignored, anything else is returned as it is.
  \<^verbatim>\<open>dst.Field\<close> panics when the index is out of range.
\<close>

definition setField ::
  "runtime \<Rightarrow> bool \<Rightarrow> govalue list \<Rightarrow> nat \<Rightarrow> string \<Rightarrow> error \<Rightarrow> error option \<times> govalue list" where
  "setField rt canSet vs idx str parseErr =
     (if idx < length vs then
        (case setValue rt canSet (vs ! idx) str of
           (v, None) \<Rightarrow> (None, vs[idx := v])
         | (v, Some errCanNotSet) \<Rightarrow> (None, vs[idx := v])
         | (v, Some errCanNotParse) \<Rightarrow> (Some parseErr, vs[idx := v])
         | (v, Some e) \<Rightarrow> (Some e, vs[idx := v]))
      else (Some (Panic ''reflect: Field index out of range''), vs))"

definition matchFlag :: "bool \<Rightarrow> bool \<Rightarrow> string \<Rightarrow> fieldMeta \<Rightarrow> bool" where
  "matchFlag hasLongPrefix hasShortPrefix name f =
     ((hasLongPrefix \<and> Name f = name) \<or> (hasShortPrefix \<and> Alias f \<noteq> None \<and> the (Alias f) = name))"

text \<open>
  One round of the scan loop at position \<open>i\<close>: it leaves the loop
  (\<open>Break\<close>), returns an error (\<open>Fail\<close>, with the fields as written so far),
  or reaches the label \<^verbatim>\<open>skip\<close> (\<open>Skip\<close>) with the value \<open>i\<close> has there, the
  fields and \<^verbatim>\<open>WrittenFields\<close>.
\<close>

datatype round = Break | Fail error "govalue list" | Skip nat "govalue list" "string list"

definition scanStep ::
  "runtime \<Rightarrow> fieldMeta list \<Rightarrow> string list \<Rightarrow> bool \<Rightarrow> nat \<Rightarrow> govalue list \<Rightarrow> string list \<Rightarrow> round" where
  "scanStep rt flags args canSet i vs WrittenFields =
     (let hasLongPrefix = HasPrefix (args ! i) ''--'';
          hasShortPrefix = HasPrefix (args ! i) ''-''
      in
      if hasLongPrefix \<or> hasShortPrefix then
        (let rawName = (if hasLongPrefix then drop 2 (args ! i) else drop 1 (args ! i));
             name = TrimPrefix rawName ''!''
         in
         case find (matchFlag hasLongPrefix hasShortPrefix name) flags of
           None \<Rightarrow>
             if args ! i = ''--help'' \<or> args ! i = ''-h'' then Fail ErrHelp vs
             else Skip i vs WrittenFields
         | Some f \<Rightarrow>
             if \<not> Index f < length vs then Fail (Panic ''reflect: Field index out of range'') vs
             else if Kind f = ''bool'' then
               (if canSet then
                  (case vs ! Index f of
                     VBool _ \<Rightarrow>
                       Skip i (vs[Index f := VBool (\<not> HasPrefix rawName ''!'')])
                         (WrittenFields @ [''--'' @ Name f])
                   | _ \<Rightarrow> Fail (Panic ''reflect: call of reflect.Value.SetBool on non-bool Value'') vs)
                else Skip i vs (WrittenFields @ [''--'' @ Name f]))
             else if i + 1 \<ge> length args then Fail (ErrRequires name (Kind f)) vs
             else
               (case setField rt canSet vs (Index f) (args ! (i + 1))
                       (ErrParseArg (args ! (i + 1)) (Kind f)) of
                  (Some e, vs') \<Rightarrow> Fail e vs'
                | (None, vs') \<Rightarrow> Skip (i + 1) vs' (WrittenFields @ [args ! i])))
      else Break)"

text \<open>
  For a token \<open>tok\<close> of the scan: the \<^verbatim>\<open>name\<close> it is looked up under (the dashes
  and one leading \<^verbatim>\<open>!\<close> removed), and the flag the loop over \<^verbatim>\<open>cmd.Flags\<close>
  stops at, if any.
\<close>

definition nameOf :: "string \<Rightarrow> string" where
  "nameOf tok = TrimPrefix (if HasPrefix tok ''--'' then drop 2 tok else drop 1 tok) ''!''"

definition matched :: "fieldMeta list \<Rightarrow> string \<Rightarrow> fieldMeta option" where
  "matched flags tok = find (matchFlag (HasPrefix tok ''--'') (HasPrefix tok ''-'') (nameOf tok)) flags"

lemma scanStep_Skip_ge:
  "scanStep rt flags args canSet i vs wr = Skip j vs' wr' \<Longrightarrow> i \<le> j"
  by (auto simp: scanStep_def Let_def
           split: if_splits option.splits govalue.splits prod.splits)

text \<open>
  The loop \<^verbatim>\<open>for i := 0; i < len(args); i++\<close>, with \<^verbatim>\<open>MaxIndex = i\<close> at the label
  \<^verbatim>\<open>skip\<close>. The result is the error if any, \<^verbatim>\<open>MaxIndex\<close>, the fields and
  \<^verbatim>\<open>WrittenFields\<close>.
\<close>

function scanLoop ::
  "runtime \<Rightarrow> fieldMeta list \<Rightarrow> string list \<Rightarrow> bool \<Rightarrow> nat \<Rightarrow> nat \<Rightarrow> govalue list \<Rightarrow> string list
    \<Rightarrow> error option \<times> nat \<times> govalue list \<times> string list" where
  "scanLoop rt flags args canSet i MaxIndex vs WrittenFields =
     (if i < length args then
        (case scanStep rt flags args canSet i vs WrittenFields of
           Break \<Rightarrow> (None, MaxIndex, vs, WrittenFields)
         | Fail e vs' \<Rightarrow> (Some e, MaxIndex, vs', WrittenFields)
         | Skip j vs' wr' \<Rightarrow> scanLoop rt flags args canSet (j + 1) j vs' wr')
      else (None, MaxIndex, vs, WrittenFields))"
  by pat_completeness auto
termination
proof (relation "measure (\<lambda>(rt, flags, args, canSet, i, m, vs, wr). length args - i)")
  show "wf (measure (\<lambda>(rt, flags, args, canSet, i, m, vs, wr). length args - i))" by simp
next
  fix rt :: runtime and flags :: "fieldMeta list" and args :: "string list" and canSet :: bool
    and i MaxIndex :: nat and vs :: "govalue list" and WrittenFields :: "string list"
    and j :: nat and vs' :: "govalue list" and wr' :: "string list"
  assume "i < length args" and "scanStep rt flags args canSet i vs WrittenFields = Skip j vs' wr'"
  then have "i \<le> j" and "i < length args" by (auto dest: scanStep_Skip_ge)
  then show "((rt, flags, args, canSet, j + 1, j, vs', wr'), (rt, flags, args, canSet, i, MaxIndex, vs, WrittenFields))
      \<in> measure (\<lambda>(rt, flags, args, canSet, i, m, vs, wr). length args - i)"
    by simp
qed

declare scanLoop.simps [simp del]

subsection \<open>bindCommand: defaults, environment and required flags\<close>

text \<open>
  The inner loop over \<^verbatim>\<open>WrittenFields\<close> that computes \<^verbatim>\<open>Found\<close> for one flag;
  \<open>None\<close> is \<^verbatim>\<open>panic("unreachable")\<close>.
\<close>

fun Found :: "string list \<Rightarrow> fieldMeta \<Rightarrow> bool option" where
  "Found [] f = Some False"
| "Found (w # ws) f =
     (if HasPrefix w ''--'' then
        (if drop 2 w = Name f then Some True else Found ws f)
      else if HasPrefix w ''-'' then
        (if Alias f \<noteq> None \<and> drop 1 w = the (Alias f) then Some True else Found ws f)
      else None)"

text \<open>The value of the flag's environment variable, when it declares one and the variable is set.\<close>

definition envValue :: "runtime \<Rightarrow> fieldMeta \<Rightarrow> string option" where
  "envValue rt f = (case Env f of None \<Rightarrow> None | Some e \<Rightarrow> LookupEnv rt e)"

text \<open>The body of the loop over \<^verbatim>\<open>cmd.Flags\<close> for one flag.\<close>

definition resolveFlag ::
  "runtime \<Rightarrow> bool \<Rightarrow> string list \<Rightarrow> fieldMeta \<Rightarrow> govalue list \<Rightarrow> error option \<times> govalue list" where
  "resolveFlag rt canSet WrittenFields f vs =
     (case Found WrittenFields f of
        None \<Rightarrow> (Some (Panic ''unreachable''), vs)
      | Some True \<Rightarrow> (None, vs)
      | Some False \<Rightarrow>
          (case envValue rt f of
             Some val \<Rightarrow> setField rt canSet vs (Index f) val (ErrParseEnv (the (Env f)) val (Kind f))
           | None \<Rightarrow>
               (case Default f of
                  Some d \<Rightarrow> setField rt canSet vs (Index f) d (ErrParseDefault d (Kind f))
                | None \<Rightarrow>
                    if Required f then (Some (ErrRequiredMissing (Name f)), vs)
                    else (None, vs))))"

fun resolveFlags ::
  "runtime \<Rightarrow> bool \<Rightarrow> string list \<Rightarrow> fieldMeta list \<Rightarrow> govalue list \<Rightarrow> error option \<times> govalue list" where
  "resolveFlags rt canSet WrittenFields [] vs = (None, vs)"
| "resolveFlags rt canSet WrittenFields (f # fs) vs =
     (case resolveFlag rt canSet WrittenFields f vs of
        (Some e, vs') \<Rightarrow> (Some e, vs')
      | (None, vs') \<Rightarrow> resolveFlags rt canSet WrittenFields fs vs')"

text \<open>What the resolution pass makes of the field of one flag: \<open>old\<close> before the pass, \<open>new\<close> after it.\<close>

definition resolved :: "runtime \<Rightarrow> bool \<Rightarrow> string list \<Rightarrow> fieldMeta \<Rightarrow> govalue \<Rightarrow> govalue \<Rightarrow> bool" where
  "resolved rt canSet wr f old new =
     (if Found wr f = Some True then new = old
      else case envValue rt f of
             Some v \<Rightarrow> new = fst (setValue rt canSet old v)
           | None \<Rightarrow>
               (case Default f of
                  Some d \<Rightarrow> new = fst (setValue rt canSet old d)
                | None \<Rightarrow> \<not> Required f \<and> new = old))"

subsection \<open>bindCommand\<close>

text \<open>
  What \<^verbatim>\<open>bindCommand\<close> does once no subcommand has matched: the scan, the
  resolution pass and the slice it returns (\<open>[]\<close> is the nil slice of the
  error returns). The result is the remainder, the error and the fields.
\<close>

definition bindFlags ::
  "runtime \<Rightarrow> fieldMeta list \<Rightarrow> string list \<Rightarrow> bool \<Rightarrow> govalue list
    \<Rightarrow> string list \<times> error option \<times> govalue list" where
  "bindFlags rt flags args canSet vs =
     (case scanLoop rt flags args canSet 0 0 vs [] of
        (Some e, MaxIndex, vs1, WrittenFields) \<Rightarrow> ([], Some e, vs1)
      | (None, MaxIndex, vs1, WrittenFields) \<Rightarrow>
          (case resolveFlags rt canSet WrittenFields flags vs1 of
             (Some e, vs2) \<Rightarrow> ([], Some e, vs2)
           | (None, vs2) \<Rightarrow>
               (if length args \<le> 0 then args else drop (MaxIndex + 1) args, None, vs2)))"

fun csize :: "command \<Rightarrow> nat" where
  "csize (Cmd once p ty name idx au ab la ve flags subs text) = Suc (sum_list (map csize subs))"

lemma csize_initFrom: "csize (initFrom rt p a) = csize a"
proof (induction rt p a rule: initFrom.induct)
  case (1 rt p once p0 ty name idx au ab la ve flags subs hlp)
  have h: "sum_list (map (csize \<circ> initFrom rt (Some (name # (case p of Some ps \<Rightarrow> ps | None \<Rightarrow> [])))) subs)
          = sum_list (map csize subs)"
    by (rule arg_cong [where f = sum_list], rule map_cong) (simp_all add: 1)
  show ?case by (simp add: h)
qed

lemma csize_sub: "s \<in> set (SubCommands a) \<Longrightarrow> csize s < csize a"
proof (cases a)
  case (Cmd once p ty name idx au ab la ve flags subs hlp)
  assume "s \<in> set (SubCommands a)"
  with Cmd have "s \<in> set subs" by simp
  then have "csize s \<le> sum_list (map csize subs)" by (simp add: member_le_sum_list)
  with Cmd show ?thesis by simp
qed

text \<open>
  The result of \<^verbatim>\<open>bindCommand\<close> is the slice, the node and the error it
  returns, and the value \<open>dst\<close> has become (the caller's instance after the
  call).
\<close>

function bindCommand ::
  "runtime \<Rightarrow> command \<Rightarrow> string list \<Rightarrow> bool \<Rightarrow> govalue
    \<Rightarrow> string list \<times> command \<times> error option \<times> govalue" where
  "bindCommand rt cmd0 args canSet dst0 =
     (let cmd = init rt cmd0 in
      case derefAlloc canSet dst0 of
        Inl p \<Rightarrow> ([], cmd, Some p, dst0)
      | Inr (settable, dst, rebuild) \<Rightarrow>
          (case dst of
             VStruct n fs vs \<Rightarrow>
               if TStruct n fs \<noteq> Type cmd then ([], cmd, Some ErrTypeMismatch, rebuild dst)
               else
                 (case (if length args > 0
                        then find (\<lambda>s. Command s = args ! 0) (SubCommands cmd) else None) of
                    Some sub \<Rightarrow>
                      if \<not> CmdIndex sub < length vs
                      then ([], cmd, Some (Panic ''reflect: Field index out of range''), rebuild dst)
                      else
                        (case bindCommand rt sub (drop 1 args) settable (vs ! CmdIndex sub) of
                           (ra, node, err, v) \<Rightarrow>
                             (ra, node, err, rebuild (VStruct n fs (vs[CmdIndex sub := v]))))
                  | None \<Rightarrow>
                      (case bindFlags rt (Flags cmd) args settable vs of
                         (ra, err, vs') \<Rightarrow> (ra, cmd, err, rebuild (VStruct n fs vs'))))
           | _ \<Rightarrow> ([], cmd, Some ErrTypeMismatch, rebuild dst)))"
  by pat_completeness auto
termination
proof (relation "measure (\<lambda>(rt, cmd, args, canSet, dst). csize cmd)")
  show "wf (measure (\<lambda>(rt, cmd, args, canSet, dst). csize cmd))" by simp
next
  fix rt :: runtime and cmd0 cmd sub :: command and args :: "string list" and canSet settable :: bool
    and dst0 dst :: govalue
  assume c: "cmd = init rt cmd0"
    and f: "(if 0 < length args then find (\<lambda>s. Command s = args ! 0) (SubCommands cmd) else None)
             = Some sub"
  from f have "find (\<lambda>s. Command s = args ! 0) (SubCommands cmd) = Some sub"
    by (simp split: if_splits)
  then have "sub \<in> set (SubCommands cmd)"
    by (auto simp: find_Some_iff)
  then have "csize sub < csize cmd" by (rule csize_sub)
  with c have "csize sub < csize cmd0" by (simp add: init_def csize_initFrom)
  then show "((rt, sub, drop 1 args, settable, dst), (rt, cmd0, args, canSet, dst0))
      \<in> measure (\<lambda>(rt, cmd, args, canSet, dst). csize cmd)"
    by simp
qed

declare bindCommand.simps [simp del]

subsection \<open>The application\<close>

datatype App = App (app_c: command)

text \<open>\<^verbatim>\<open>reflect.ValueOf(v).Type()\<close>, for a \<open>v\<close> that is not the nil interface.\<close>

primrec typeOf :: "govalue \<Rightarrow> gotype" where
  "typeOf (VBool b) = TBool"
| "typeOf (VString s) = TString"
| "typeOf (VInt w i) = TInt w"
| "typeOf (VUint w n) = TUint w"
| "typeOf (VFloat w x) = TFloat w"
| "typeOf (VSlice t es sp) = TSlice t"
| "typeOf (VPtr t p) = TPtr t"
| "typeOf (VStruct n fs vs) = TStruct n fs"
| "typeOf (VOther k) = TOther k"

definition NewApp :: "runtime \<Rightarrow> govalue \<Rightarrow> error + App" where
  "NewApp rt v =
     (case buildCommand (typeOf v) None (Executable rt) of
        Inl err \<Rightarrow> Inl err
      | Inr cmd \<Rightarrow> Inr (App (init rt cmd)))"

text \<open>\<^verbatim>\<open>App.Help\<close>: the text, and the application after the call.\<close>

definition App_Help :: "runtime \<Rightarrow> App \<Rightarrow> string \<times> App" where
  "App_Help rt a = (Help (init rt (app_c a)), App (init rt (app_c a)))"

text \<open>
  \<^verbatim>\<open>App.Bind\<close>. \<^verbatim>\<open>reflect.ValueOf(dst)\<close> cannot be set itself. The result is the
  slice, the application and the error returned, and the caller's \<open>dst\<close> after
  the call.
\<close>

definition App_Bind ::
  "runtime \<Rightarrow> App \<Rightarrow> govalue \<Rightarrow> string list \<Rightarrow> string list \<times> App \<times> error option \<times> govalue" where
  "App_Bind rt a dst args =
     (case bindCommand rt (app_c a) args False dst of
        (ra, cmd, err, dst') \<Rightarrow>
          if err \<noteq> None then (args, App cmd, err, dst')
          else (ra, App cmd, None, dst'))"

text \<open>\<^verbatim>\<open>Bind\<close>: \<^verbatim>\<open>NewApp(dst)\<close>, then \<^verbatim>\<open>a.Bind(dst, args)\<close>; \<open>None\<close> is the \<^verbatim>\<open>App{}\<close> of the error return.\<close>

definition Bind ::
  "runtime \<Rightarrow> govalue \<Rightarrow> string list \<Rightarrow> string list \<times> App option \<times> error option \<times> govalue" where
  "Bind rt dst args =
     (case NewApp rt dst of
        Inl err \<Rightarrow> (args, None, Some err, dst)
      | Inr a \<Rightarrow>
          (case App_Bind rt a dst args of (ra, app, err, dst') \<Rightarrow> (ra, Some app, err, dst')))"

subsection \<open>Inputs for the examples\<close>

text \<open>A runtime with an empty environment and no float parser.\<close>

definition noEnv :: runtime where
  "noEnv = \<lparr>LookupEnv = (\<lambda>_. None), ParseFloat = (\<lambda>_. None), Float32 = (\<lambda>x. x), ToUpper = (\<lambda>s. s),
            Executable = ''demo''\<rparr>"

text \<open>
  The descriptor the builder makes for a field with the tag \<^verbatim>\<open>flag:"n"\<close> and no
  other tag, and a node with nothing but a type, a name, flags and subcommands.
\<close>

definition flag :: "string \<Rightarrow> string \<Rightarrow> nat \<Rightarrow> fieldMeta" where
  "flag n k i = \<lparr>Name = n, Kind = k, About = [], Index = i, Default = None, Env = None,
                 Alias = None, Required = False\<rparr>"

definition node :: "gotype \<Rightarrow> string \<Rightarrow> fieldMeta list \<Rightarrow> command list \<Rightarrow> command" where
  "node t n fs subs = Cmd False None t n 0 None None None None fs subs []"

text \<open>\<^verbatim>\<open>type Empty struct { _ struct{} }\<close>: a command without flags.\<close>

definition emptyType :: gotype where
  "emptyType = TStruct ''Empty'' [StructField ''_'' False (TStruct [] []) []]"

text \<open>\<^verbatim>\<open>type Required struct { Name string `flag:"name" alias:"n" required:"true"` }\<close> and its flag.\<close>

definition requiredType :: gotype where
  "requiredType = TStruct ''Required''
     [StructField ''Name'' True TString
        [(''flag'', ''name''), (''alias'', ''n''), (''required'', ''true'')]]"

definition nameFlag :: fieldMeta where
  "nameFlag = (flag ''name'' ''string'' 0)\<lparr>Alias := Some ''n'', Required := True\<rparr>"

text \<open>\<^verbatim>\<open>type Options struct { _ struct{}; Verbose *bool `flag:"verbose"` }\<close>.\<close>

definition ptrBoolType :: gotype where
  "ptrBoolType = TStruct ''Options''
     [StructField ''_'' False (TStruct [] []) [],
      StructField ''Verbose'' True (TPtr TBool) [(''flag'', ''verbose'')]]"

text \<open>\<^verbatim>\<open>type Switch struct { _ struct{}; Verbose bool `flag:"verbose" default:"true"` }\<close>.\<close>

definition defaultBoolType :: gotype where
  "defaultBoolType = TStruct ''Switch''
     [StructField ''_'' False (TStruct [] []) [],
      StructField ''Verbose'' True TBool [(''flag'', ''verbose''), (''default'', ''true'')]]"

text \<open>
  A runtime whose environment holds \<^verbatim>\<open>PORT=8080\<close>, and
  \<^verbatim>\<open>type Server struct { Host string `flag:"host"`; Port int `flag:"port" env:"PORT" default:"80"`;
  Mode string `flag:"mode" default:"fast"`; Tag string `flag:"tag"` }\<close> with its flags and
  the fields of its zero value.
\<close>

definition portEnv :: runtime where
  "portEnv = noEnv\<lparr>LookupEnv := (\<lambda>k. if k = ''PORT'' then Some ''8080'' else None)\<rparr>"

definition serverType :: gotype where
  "serverType = TStruct ''Server''
     [StructField ''Host'' True TString [(''flag'', ''host'')],
      StructField ''Port'' True (TInt W) [(''flag'', ''port''), (''env'', ''PORT''), (''default'', ''80'')],
      StructField ''Mode'' True TString [(''flag'', ''mode''), (''default'', ''fast'')],
      StructField ''Tag'' True TString [(''flag'', ''tag'')]]"

definition serverFlags :: "fieldMeta list" where
  "serverFlags =
     [flag ''host'' ''string'' 0,
      (flag ''port'' ''int'' 1)\<lparr>Env := Some ''PORT'', Default := Some ''80''\<rparr>,
      (flag ''mode'' ''string'' 2)\<lparr>Default := Some ''fast''\<rparr>,
      flag ''tag'' ''string'' 3]"

definition serverZero :: "govalue list" where
  "serverZero = [VString [], VInt W 0, VString [], VString []]"

text \<open>
  The types of the repository's subcommand test, without the tags of the help text:
  \<^verbatim>\<open>type AddApp struct { _ struct{} `command:"add"`; A int `flag:"a" alias:"a" required:"true"`;
  B int `flag:"b" alias:"b" required:"true"` }\<close> and
  \<^verbatim>\<open>type SubcommandApp struct { _ struct{} `command:"SubcommandApp"`;
  Name string `flag:"name" alias:"n" required:"true" default:"John"`;
  Age int `flag:"age" alias:"a" required:"true" default:"42"`; Add *AddApp `subcommand:"add"` }\<close>,
  with the nodes the builder makes of them.
\<close>

definition addFields :: "structField list" where
  "addFields =
     [StructField ''_'' False (TStruct [] []) [(''command'', ''add'')],
      StructField ''A'' True (TInt W) [(''flag'', ''a''), (''alias'', ''a''), (''required'', ''true'')],
      StructField ''B'' True (TInt W) [(''flag'', ''b''), (''alias'', ''b''), (''required'', ''true'')]]"

definition addType :: gotype where
  "addType = TStruct ''AddApp'' addFields"

definition subcommandFields :: "structField list" where
  "subcommandFields =
     [StructField ''_'' False (TStruct [] []) [(''command'', ''SubcommandApp'')],
      StructField ''Name'' True TString
        [(''flag'', ''name''), (''alias'', ''n''), (''required'', ''true''), (''default'', ''John'')],
      StructField ''Age'' True (TInt W)
        [(''flag'', ''age''), (''alias'', ''a''), (''required'', ''true''), (''default'', ''42'')],
      StructField ''Add'' True (TPtr addType) [(''subcommand'', ''add'')]]"

definition subcommandType :: gotype where
  "subcommandType = TStruct ''SubcommandApp'' subcommandFields"

definition addCmd :: command where
  "addCmd = Cmd False (Some [''SubcommandApp'']) addType ''add'' 3 None None None None
     [(flag ''a'' ''int'' 1)\<lparr>Alias := Some ''a'', Required := True\<rparr>,
      (flag ''b'' ''int'' 2)\<lparr>Alias := Some ''b'', Required := True\<rparr>] [] []"

definition subcommandApp :: command where
  "subcommandApp = node subcommandType ''SubcommandApp''
     [(flag ''name'' ''string'' 1)\<lparr>Alias := Some ''n'', Required := True, Default := Some ''John''\<rparr>,
      (flag ''age'' ''int'' 2)\<lparr>Alias := Some ''a'', Required := True, Default := Some ''42''\<rparr>]
     [addCmd]"

section \<open>Value coercion\<close>

lemmas strconv_defs =
  sniffRadix_def HasPrefix_def ParseInt_def ParseUint_def digitVal_def maxUint64_def
  SetInt_def SetUint_def

lemma derefAlloc_plain [simp]:
  "\<forall>t p. v \<noteq> VPtr t p \<Longrightarrow> derefAlloc canSet v = Inr (canSet, v, \<lambda>x. x)"
  by (cases v) auto

lemma setValue_VString [simp]: "setValue rt True (VString x) s = (VString s, None)"
  by (simp add: setValue.simps)

lemma setValue_VInt:
  "setValue rt True (VInt w x) s =
     (case ParseInt (snd (sniffRadix s)) (fst (sniffRadix s)) of
        Inl _ \<Rightarrow> (VInt w x, Some errCanNotParse)
      | Inr y \<Rightarrow> (SetInt w y, None))"
  by (simp add: setValue.simps)

lemma setValue_VUint:
  "setValue rt True (VUint w x) s =
     (case ParseUint (snd (sniffRadix s)) (fst (sniffRadix s)) of
        Inl _ \<Rightarrow> (VUint w x, Some errCanNotParse)
      | Inr y \<Rightarrow> (SetUint w y, None))"
  by (simp add: setValue.simps)

lemma setValue_slice_eq:
  "setValue rt True (VSlice t es sp) str =
     (case setElems (\<lambda>e s. setValue rt True e s)
             (fst (resize t es sp (length (Split str)))) (Split str) of
        (es', r) \<Rightarrow> (VSlice t es' (snd (resize t es sp (length (Split str)))), r))"
  by (subst setValue.simps) simp

text \<open>
  The four spellings of forty-two are read alike, into a signed and into an
  unsigned destination of any width.
\<close>

lemma setValue_radix_int:
  "setValue rt True (VInt w x) ''0x2A'' = (SetInt w 42, None)
   \<and> setValue rt True (VInt w x) ''0b101010'' = (SetInt w 42, None)
   \<and> setValue rt True (VInt w x) ''0o52'' = (SetInt w 42, None)
   \<and> setValue rt True (VInt w x) ''42'' = (SetInt w 42, None)"
  by (simp add: setValue_VInt strconv_defs)

lemma setValue_radix_uint:
  "setValue rt True (VUint w x) ''0x2A'' = (SetUint w 42, None)
   \<and> setValue rt True (VUint w x) ''0b101010'' = (SetUint w 42, None)
   \<and> setValue rt True (VUint w x) ''0o52'' = (SetUint w 42, None)
   \<and> setValue rt True (VUint w x) ''42'' = (SetUint w 42, None)"
  by (simp add: setValue_VUint strconv_defs)

text \<open>
  C5. Radix sniffing of integers, with signed prefixes read as the negated
  value. The code finds the prefix \<^verbatim>\<open>-0x\<close> to be hexadecimal and then parses
  \<^verbatim>\<open>value[2:]\<close>, which drops the sign and keeps the \<^verbatim>\<open>x\<close>: the text
  \<^verbatim>\<open>-0x2A\<close> is not read as \<open>-42\<close>, it fails with \<^verbatim>\<open>errCanNotParse\<close> and leaves
  the destination as it was (likewise \<^verbatim>\<open>+0x2A\<close>, and the other two bases).
\<close>

theorem setValue_signed_prefix_fails:
  "setValue rt True (VInt W 0) ''-0x2A'' = (VInt W 0, Some errCanNotParse)
   \<and> setValue rt True (VInt W 0) ''+0x2A'' = (VInt W 0, Some errCanNotParse)
   \<and> setValue rt True (VInt W 0) ''-0b101010'' = (VInt W 0, Some errCanNotParse)
   \<and> setValue rt True (VInt W 0) ''-0o52'' = (VInt W 0, Some errCanNotParse)
   \<and> setValue rt True (VInt W 0) ''-42'' = (VInt W (- 42), None)"
  by (simp add: setValue_VInt strconv_defs)

subsection \<open>Sequences\<close>

lemma setElems_length:
  "setElems f es ss = (es', r) \<Longrightarrow> length es' = length es"
proof (induction f es ss arbitrary: es' r rule: setElems.induct)
  case (1 f e es s ss)
  then show ?case by (auto split: prod.splits option.splits)
qed auto

lemma setElems_ok:
  "length es = length ss \<Longrightarrow> setElems f es ss = (es', None) \<Longrightarrow> i < length es
    \<Longrightarrow> f (es ! i) (ss ! i) = (es' ! i, None)"
proof (induction f es ss arbitrary: es' i rule: setElems.induct)
  case (1 f e es s ss)
  then show ?case
    by (cases i) (auto split: prod.splits option.splits)
qed auto

lemma setElems_fail:
  "length es = length ss \<Longrightarrow> setElems f es ss = (es', Some err)
    \<Longrightarrow> \<exists>k < length es. f (es ! k) (ss ! k) = (es' ! k, Some err)
          \<and> (\<forall>i < k. f (es ! i) (ss ! i) = (es' ! i, None))
          \<and> (\<forall>i. k < i \<and> i < length es \<longrightarrow> es' ! i = es ! i)"
proof (induction f es ss arbitrary: es' rule: setElems.induct)
  case (1 f e es s ss)
  obtain e' r where fe: "f e s = (e', r)" by (cases "f e s")
  show ?case
  proof (cases r)
    case (Some x)
    with 1 fe have "es' = e' # es" "x = err" by auto
    with fe Some show ?thesis by (intro exI [of _ 0]) auto
  next
    case None
    obtain es1 r1 where rec: "setElems f es ss = (es1, r1)" by (cases "setElems f es ss")
    with 1 fe None have es': "es' = e' # es1" and r1: "r1 = Some err" by auto
    from 1 have len: "length es = length ss" by simp
    from fe None have fe': "(e', None) = f e s" by simp
    from "1.IH" [OF fe' refl len rec [unfolded r1]] obtain k where k: "k < length es"
      "f (es ! k) (ss ! k) = (es1 ! k, Some err)"
      "\<forall>i<k. f (es ! i) (ss ! i) = (es1 ! i, None)"
      "\<forall>i. k < i \<and> i < length es \<longrightarrow> es1 ! i = es ! i" by blast
    show ?thesis
    proof (intro exI [of _ "Suc k"] conjI allI impI)
      show "Suc k < length (e # es)" using k by simp
      show "f ((e # es) ! Suc k) ((s # ss) ! Suc k) = (es' ! Suc k, Some err)" using k es' by simp
      show "f ((e # es) ! i) ((s # ss) ! i) = (es' ! i, None)" if "i < Suc k" for i
        using that k fe None es' by (cases i) auto
      show "es' ! i = (e # es) ! i" if "Suc k < i \<and> i < length (e # es)" for i
        using that k es' by (cases i) auto
    qed
  qed
qed auto

lemma resize_length: "length (fst (resize t es sp n)) = n"
  by (auto simp: resize_def)

lemma Split_nonempty: "Split s \<noteq> []"
  by (induction s) (auto split: list.splits)

lemma setElems_strings:
  "\<forall>e \<in> set es. \<exists>x. e = VString x \<Longrightarrow> length es = length ss
    \<Longrightarrow> setElems (\<lambda>e s. setValue rt True e s) es ss = (map VString ss, None)"
proof (induction es arbitrary: ss)
  case Nil
  then show ?case by simp
next
  case (Cons e es)
  then obtain s ss' where ss: "ss = s # ss'" by (cases ss) auto
  from Cons obtain x where "e = VString x" by auto
  with Cons ss show ?case by auto
qed

text \<open>
  C7. Sequence coercion. The text is split on \<^verbatim>\<open>,\<close> (\<open>parts\<close>); the destination
  becomes a slice of as many elements as there are parts (\<open>es0\<close> before they
  are written: fresh zero values when the capacity was too small, else the
  first elements of the backing array); element \<open>i\<close> is coerced from part \<open>i\<close>.
  When no element fails, every element is the result of its coercion. When
  one fails, the error returned is that of the first failing element \<open>k\<close>,
  the elements before \<open>k\<close> have been written and those after \<open>k\<close> are untouched.
  A fresh slice of strings becomes exactly the parts; \<^verbatim>\<open>a,,c\<close> has an empty
  middle part.
\<close>

theorem setValue_sequence:
  fixes rt t es sp str
  defines "parts \<equiv> Split str"
  defines "es0 \<equiv> fst (resize t es sp (length (Split str)))"
  defines "coerce \<equiv> (\<lambda>i. setValue rt True (es0 ! i) (parts ! i))"
  shows "(\<exists>es' r. setValue rt True (VSlice t es sp) str
                    = (VSlice t es' (snd (resize t es sp (length parts))), r)
           \<and> length es' = length parts
           \<and> (r = None \<longrightarrow> (\<forall>i < length parts. coerce i = (es' ! i, None)))
           \<and> (\<forall>err. r = Some err \<longrightarrow>
                 (\<exists>k < length parts. coerce k = (es' ! k, Some err)
                    \<and> (\<forall>i < k. coerce i = (es' ! i, None))
                    \<and> (\<forall>i. k < i \<and> i < length parts \<longrightarrow> es' ! i = es0 ! i))))
    \<and> setValue rt True (VSlice TString [] []) str = (VSlice TString (map VString (Split str)) [], None)
    \<and> Split ''a,b,c'' = [''a'', ''b'', ''c'']
    \<and> Split ''a,,c'' = [''a'', [], ''c'']"
proof -
  obtain es' r where se: "setElems (\<lambda>e s. setValue rt True e s) es0 parts = (es', r)"
    by (cases "setElems (\<lambda>e s. setValue rt True e s) es0 parts")
  have len: "length es0 = length parts" by (simp add: es0_def parts_def resize_length)
  have eq: "setValue rt True (VSlice t es sp) str
              = (VSlice t es' (snd (resize t es sp (length parts))), r)"
    using se by (simp add: setValue_slice_eq es0_def parts_def)
  have l: "length es' = length parts" using setElems_length [OF se] len by simp
  have ok: "r = None \<longrightarrow> (\<forall>i < length parts. coerce i = (es' ! i, None))"
    using setElems_ok [OF len] se len by (auto simp: coerce_def)
  have bad: "\<forall>err. r = Some err \<longrightarrow>
                 (\<exists>k < length parts. coerce k = (es' ! k, Some err)
                    \<and> (\<forall>i < k. coerce i = (es' ! i, None))
                    \<and> (\<forall>i. k < i \<and> i < length parts \<longrightarrow> es' ! i = es0 ! i))"
    using setElems_fail [OF len] se len unfolding coerce_def by auto
  from eq l ok bad have general: "\<exists>es' r. setValue rt True (VSlice t es sp) str
                    = (VSlice t es' (snd (resize t es sp (length parts))), r)
           \<and> length es' = length parts
           \<and> (r = None \<longrightarrow> (\<forall>i < length parts. coerce i = (es' ! i, None)))
           \<and> (\<forall>err. r = Some err \<longrightarrow>
                 (\<exists>k < length parts. coerce k = (es' ! k, Some err)
                    \<and> (\<forall>i < k. coerce i = (es' ! i, None))
                    \<and> (\<forall>i. k < i \<and> i < length parts \<longrightarrow> es' ! i = es0 ! i)))"
    by blast
  have "length (Split str) > 0" using Split_nonempty [of str] by simp
  then have r0: "resize TString [] [] (length (Split str))
                   = (replicate (length (Split str)) (VString []), [])"
    by (simp add: resize_def)
  have "setElems (\<lambda>e s. setValue rt True e s) (replicate (length (Split str)) (VString [])) (Split str)
          = (map VString (Split str), None)"
    by (rule setElems_strings) auto
  with r0 have strings: "setValue rt True (VSlice TString [] []) str
                           = (VSlice TString (map VString (Split str)) [], None)"
    by (simp add: setValue_slice_eq)
  have abc: "Split ''a,b,c'' = [''a'', ''b'', ''c'']" by simp
  have ac: "Split ''a,,c'' = [''a'', [], ''c'']" by simp
  from general strings abc ac show ?thesis by blast
qed

theorem setValue_sequence_witness:
  "setValue noEnv True (VSlice (TInt W) [] []) ''1,0x2,3''
     = (VSlice (TInt W) [VInt W 1, VInt W 2, VInt W 3] [], None)
   \<and> setValue noEnv True (VSlice (TInt W) [] []) ''1,x,3''
     = (VSlice (TInt W) [VInt W 1, VInt W 0, VInt W 0] [], Some errCanNotParse)
   \<and> setValue noEnv True (VSlice TString [] []) ''a,,c''
     = (VSlice TString [VString ''a'', VString [], VString ''c''] [], None)"
  using setValue_sequence [of noEnv "TInt W" "[]" "[]" "''1,0x2,3''"]
        setValue_sequence [of noEnv "TInt W" "[]" "[]" "''1,x,3''"]
        setValue_sequence [of noEnv TString "[]" "[]" "''a,,c''"]
  by (simp add: setValue_slice_eq setValue_VInt strconv_defs resize_def)

section \<open>Binding\<close>

lemma initFrom_sel [simp]:
  "Type (initFrom rt p a) = Type a"
  "Command (initFrom rt p a) = Command a"
  "CmdIndex (initFrom rt p a) = CmdIndex a"
  "Flags (initFrom rt p a) = Flags a"
  "Parent (initFrom rt p a) = p"
  "initOnce (initFrom rt p a) = True"
  "SubCommands (initFrom rt p a)
     = map (initFrom rt (Some (Command a # (case p of Some ps \<Rightarrow> ps | None \<Rightarrow> [])))) (SubCommands a)"
  by (cases a; simp)+

lemma init_sel [simp]:
  "Type (init rt a) = Type a"
  "Command (init rt a) = Command a"
  "CmdIndex (init rt a) = CmdIndex a"
  "Flags (init rt a) = Flags a"
  "SubCommands (init rt a)
     = map (initFrom rt (Some (Command a # (case Parent a of Some ps \<Rightarrow> ps | None \<Rightarrow> []))))
         (SubCommands a)"
  by (simp_all add: init_def)

text \<open>The rules that evaluate a bind on given tokens.\<close>

lemmas bind_eval =
  bindCommand.simps scanLoop.simps scanStep_def bindFlags_def resolveFlag_def envValue_def
  setField_def matchFlag_def HasPrefix_def TrimPrefix_def App_Bind_def Let_def flag_def node_def

lemmas build_eval =
  buildCommand.simps isMarker_def setMeta_def addSubCommand_def addFlag_def buildFlag_def
  ParseBool_def finalCommand_def NewApp_def Bind_def

text \<open>The example nodes are what the builder makes of the example types.\<close>

lemma examples_built:
  "buildCommand (TPtr emptyType) None ''demo'' = Inr (node emptyType ''demo'' [] [])"
  "buildCommand (TPtr requiredType) None ''demo'' = Inr (node requiredType ''demo'' [nameFlag] [])"
  "buildCommand (TPtr ptrBoolType) None ''demo''
     = Inr (node ptrBoolType ''demo'' [flag ''verbose'' ''bool'' 1] [])"
  "buildCommand (TPtr serverType) None ''demo'' = Inr (node serverType ''demo'' serverFlags [])"
  "buildCommand (TPtr subcommandType) None ''demo'' = Inr subcommandApp"
  "zero serverType = VStruct ''Server''
     [StructField ''Host'' True TString [(''flag'', ''host'')],
      StructField ''Port'' True (TInt W) [(''flag'', ''port''), (''env'', ''PORT''), (''default'', ''80'')],
      StructField ''Mode'' True TString [(''flag'', ''mode''), (''default'', ''fast'')],
      StructField ''Tag'' True TString [(''flag'', ''tag'')]] serverZero"
  by (simp_all add: build_eval emptyType_def requiredType_def ptrBoolType_def serverType_def
        subcommandType_def subcommandFields_def addType_def addFields_def node_def flag_def
        nameFlag_def serverFlags_def serverZero_def subcommandApp_def addCmd_def)

subsection \<open>The schemas that buildCommand returns\<close>

lemma setMeta_sel [simp]:
  "Flags (setMeta st c) = Flags c" "SubCommands (setMeta st c) = SubCommands c"
  "Type (setMeta st c) = Type c"
  by (cases c; simp add: setMeta_def)+

lemma addFlag_sel [simp]:
  "Flags (addFlag fm c) = Flags c @ [fm]" "SubCommands (addFlag fm c) = SubCommands c"
  "Type (addFlag fm c) = Type c"
  by (cases c; simp add: addFlag_def)+

lemma addSubCommand_sel [simp]:
  "Flags (addSubCommand i s c) = Flags c" "Type (addSubCommand i s c) = Type c"
  "map CmdIndex (SubCommands (addSubCommand i s c)) = map CmdIndex (SubCommands c) @ [i]"
  by (cases c; cases s; simp add: addSubCommand_def)+

lemma buildFlag_sel:
  "buildFlag f i = Inr fm \<Longrightarrow> Index fm = i \<and> Kind fm = kindString (stripPtr (sf_Type f))"
  by (auto simp: buildFlag_def split: option.splits)

text \<open>
  What the loop over the fields adds from index \<open>i\<close> on: flags and subcommands with
  increasing field indices, each within the fields looped over, and each flag's
  \<^verbatim>\<open>Kind\<close> the kind of its field's type without its pointers.
\<close>

lemma buildFields_inv:
  "buildFields build fs i cmd = Inr cmd' \<Longrightarrow>
     Type cmd' = Type cmd
     \<and> (\<exists>new. Flags cmd' = Flags cmd @ new
            \<and> sorted_wrt (<) (map Index new)
            \<and> (\<forall>fm\<in>set new. i \<le> Index fm \<and> Index fm < i + length fs
                   \<and> Kind fm = kindString (stripPtr (sf_Type (fs ! (Index fm - i))))))
     \<and> (\<exists>new. map CmdIndex (SubCommands cmd') = map CmdIndex (SubCommands cmd) @ new
            \<and> sorted_wrt (<) new \<and> (\<forall>j\<in>set new. i \<le> j \<and> j < i + length fs))"
proof (induction fs arbitrary: i cmd)
  case Nil
  then show ?case by simp
next
  case (Cons f fs)
  have step: "?case" if rec: "buildFields build fs (i + 1) c1 = Inr cmd'"
    and ty: "Type c1 = Type cmd"
    and fl: "Flags c1 = Flags cmd @ nf" "\<forall>fm\<in>set nf. Index fm = i \<and> Kind fm = kindString (stripPtr (sf_Type f))" "length nf \<le> 1"
    and su: "map CmdIndex (SubCommands c1) = map CmdIndex (SubCommands cmd) @ ns" "\<forall>j\<in>set ns. j = i" "length ns \<le> 1"
    for c1 nf ns
  proof -
    from Cons.IH [OF rec] obtain new new2 where
      t: "Type cmd' = Type c1"
      and a: "Flags cmd' = Flags c1 @ new" "sorted_wrt (<) (map Index new)"
        "\<forall>fm\<in>set new. i + 1 \<le> Index fm \<and> Index fm < i + 1 + length fs
               \<and> Kind fm = kindString (stripPtr (sf_Type (fs ! (Index fm - (i + 1)))))"
      and b: "map CmdIndex (SubCommands cmd') = map CmdIndex (SubCommands c1) @ new2"
        "sorted_wrt (<) new2" "\<forall>j\<in>set new2. i + 1 \<le> j \<and> j < i + 1 + length fs"
      by blast
    have 1: "Flags cmd' = Flags cmd @ (nf @ new)" using a fl by simp
    have 2: "sorted_wrt (<) (map Index (nf @ new))"
      using a fl by (cases nf) (auto simp: sorted_wrt_append)
    have 3: "\<forall>fm\<in>set (nf @ new). i \<le> Index fm \<and> Index fm < i + length (f # fs)
                   \<and> Kind fm = kindString (stripPtr (sf_Type ((f # fs) ! (Index fm - i))))"
    proof
      fix fm assume "fm \<in> set (nf @ new)"
      then consider "fm \<in> set nf" | "fm \<in> set new" by auto
      then show "i \<le> Index fm \<and> Index fm < i + length (f # fs)
                   \<and> Kind fm = kindString (stripPtr (sf_Type ((f # fs) ! (Index fm - i))))"
      proof cases
        case 1
        with fl show ?thesis by simp
      next
        case 2
        with a(3) have x: "i + 1 \<le> Index fm" "Index fm < i + 1 + length fs"
          "Kind fm = kindString (stripPtr (sf_Type (fs ! (Index fm - (i + 1)))))" by auto
        from x(1) have "Index fm - i = Suc (Index fm - (i + 1))" by simp
        with x show ?thesis by simp
      qed
    qed
    have 4: "map CmdIndex (SubCommands cmd') = map CmdIndex (SubCommands cmd) @ (ns @ new2)"
      using b su by simp
    have 5: "sorted_wrt (<) (ns @ new2)"
      using b su by (cases ns) (auto simp: sorted_wrt_append)
    have 6: "\<forall>j\<in>set (ns @ new2). i \<le> j \<and> j < i + length (f # fs)"
      using b su by auto
    have A: "\<exists>new. Flags cmd' = Flags cmd @ new
            \<and> sorted_wrt (<) (map Index new)
            \<and> (\<forall>fm\<in>set new. i \<le> Index fm \<and> Index fm < i + length (f # fs)
                   \<and> Kind fm = kindString (stripPtr (sf_Type ((f # fs) ! (Index fm - i)))))"
      by (rule exI [of _ "nf @ new"], intro conjI) (fact 1, fact 2, fact 3)
    have B: "\<exists>new. map CmdIndex (SubCommands cmd') = map CmdIndex (SubCommands cmd) @ new
            \<and> sorted_wrt (<) new \<and> (\<forall>j\<in>set new. i \<le> j \<and> j < i + length (f # fs))"
      by (rule exI [of _ "ns @ new2"], intro conjI) (fact 4, fact 5, fact 6)
    have C: "Type cmd' = Type cmd" using t ty by simp
    from C A B show ?thesis by (intro conjI)
  qed
  show ?case
  proof (cases "isMarker (sf_Type f)")
    case True
    with Cons.prems have r: "buildFields build fs (i + 1) (setMeta (sf_Tag f) cmd) = Inr cmd'" by simp
    show ?thesis by (rule step [OF r, of "[]" "[]"]) simp_all
  next
    case nm: False
    show ?thesis
    proof (cases "sf_Exported f")
      case False
      with nm Cons.prems have r: "buildFields build fs (i + 1) cmd = Inr cmd'" by simp
      show ?thesis by (rule step [OF r, of "[]" "[]"]) simp_all
    next
      case ex: True
      show ?thesis
      proof (cases "map_of (sf_Tag f) ''subcommand''")
        case (Some v)
        with nm ex Cons.prems obtain subcmd where
          r: "buildFields build fs (i + 1) (addSubCommand i subcmd cmd) = Inr cmd'"
          by (auto split: sum.splits)
        show ?thesis by (rule step [OF r, of "[]" "[i]"]) simp_all
      next
        case ns: None
        show ?thesis
        proof (cases "map_of (sf_Tag f) ''flag''")
          case None
          with nm ex ns Cons.prems have r: "buildFields build fs (i + 1) cmd = Inr cmd'" by simp
          show ?thesis by (rule step [OF r, of "[]" "[]"]) simp_all
        next
          case (Some v)
          with nm ex ns Cons.prems obtain fm where fm: "buildFlag f i = Inr fm"
            and r: "buildFields build fs (i + 1) (addFlag fm cmd) = Inr cmd'"
            by (auto split: sum.splits)
          show ?thesis
            by (rule step [OF r, of "[fm]" "[]"]) (simp_all add: buildFlag_sel [OF fm])
        qed
      qed
    qed
  qed
qed

lemma sorted_wrt_less_distinct: "sorted_wrt (<) (xs :: nat list) \<Longrightarrow> distinct xs"
  by (induction xs) auto

text \<open>
  So in a schema that \<^verbatim>\<open>buildCommand\<close> returns no two flags and no two subcommands
  share a field index, every index is a field of the struct, and a flag on a
  field of type \<^verbatim>\<open>*bool\<close> has \<^verbatim>\<open>Kind\<close> \<^verbatim>\<open>"bool"\<close>.
\<close>

lemma buildCommand_schema:
  assumes "buildCommand rt parent commandName = Inr cmd"
  shows "\<exists>n fs. stripPtr rt = TStruct n fs \<and> Type cmd = TStruct n fs
           \<and> distinct (map Index (Flags cmd))
           \<and> (\<forall>fm\<in>set (Flags cmd). Index fm < length fs
                  \<and> Kind fm = kindString (stripPtr (sf_Type (fs ! Index fm))))
           \<and> distinct (map CmdIndex (SubCommands cmd))
           \<and> (\<forall>s\<in>set (SubCommands cmd). CmdIndex s < length fs)"
proof -
  from assms obtain n fs where s: "stripPtr rt = TStruct n fs"
    by (subst (asm) buildCommand.simps) (auto split: gotype.splits)
  let ?c0 = "Cmd False parent (TStruct n fs) commandName 0 None None None None [] [] []"
  from assms s obtain build where "buildFields build fs 0 ?c0 = Inr cmd"
    by (subst (asm) buildCommand.simps) auto
  from buildFields_inv [OF this] obtain new new2 where
    t: "Type cmd = TStruct n fs"
    and a: "Flags cmd = new" "sorted_wrt (<) (map Index new)"
       "\<forall>fm\<in>set new. Index fm < length fs \<and> Kind fm = kindString (stripPtr (sf_Type (fs ! Index fm)))"
    and b: "map CmdIndex (SubCommands cmd) = new2" "sorted_wrt (<) new2" "\<forall>j\<in>set new2. j < length fs"
    by auto
  from a(2) have "distinct (map Index new)" by (rule sorted_wrt_less_distinct)
  moreover from b(2) have "distinct new2" by (rule sorted_wrt_less_distinct)
  moreover from b(1,3) have "\<forall>s\<in>set (SubCommands cmd). CmdIndex s < length fs" by auto
  ultimately show ?thesis using s t a b by auto
qed

subsection \<open>The scan\<close>

text \<open>A token that starts with two dashes starts with one: the scan's test is the second.\<close>

lemma flagLooking: "(HasPrefix tok ''--'' \<or> HasPrefix tok ''-'') = HasPrefix tok ''-''"
  by (cases tok; cases "tl tok") (auto simp: HasPrefix_def)

lemma scanStep_unmatched:
  "HasPrefix (args ! i) ''-'' \<Longrightarrow> matched flags (args ! i) = None \<Longrightarrow>
   scanStep rt flags args canSet i vs wr =
     (if args ! i = ''--help'' \<or> args ! i = ''-h'' then Fail ErrHelp vs else Skip i vs wr)"
  using flagLooking [of "args ! i"]
  by (simp add: scanStep_def matched_def nameOf_def Let_def)

text \<open>An error of the scan is the error of the bind.\<close>

lemma scanLoop_error:
  "scanLoop rt flags args canSet 0 0 vs [] = (Some e, m, vs', wr)
    \<Longrightarrow> bindFlags rt flags args canSet vs = ([], Some e, vs')"
  by (simp add: bindFlags_def)

text \<open>
  C8. When the scan is at a token that starts with a dash and matches no
  flag, it returns \<^verbatim>\<open>ErrHelp\<close> if the token is \<^verbatim>\<open>--help\<close> or \<^verbatim>\<open>-h\<close>; for any
  other such token it goes on to the next token with the fields and the
  written flags as they were.
\<close>

theorem scan_unmatched:
  assumes "i < length args" and "HasPrefix (args ! i) ''-''" and "matched flags (args ! i) = None"
  shows "scanLoop rt flags args canSet i m vs wr =
          (if args ! i = ''--help'' \<or> args ! i = ''-h'' then (Some ErrHelp, m, vs, wr)
           else scanLoop rt flags args canSet (i + 1) i vs wr)"
  using assms by (subst scanLoop.simps) (simp add: scanStep_unmatched)

theorem scan_unmatched_witness:
  "scanLoop noEnv [flag ''name'' ''string'' 0] [''--unknown'', ''--help'', ''rest''] True 0 0
       [VString []] []
     = (Some ErrHelp, 0, [VString []], [])"
proof -
  let ?args = "[''--unknown'', ''--help'', ''rest'']"
  let ?flags = "[flag ''name'' ''string'' 0]"
  have a: "(0::nat) < length ?args" "HasPrefix (?args ! 0) ''-''" "matched ?flags (?args ! 0) = None"
    by (simp_all add: HasPrefix_def matched_def matchFlag_def nameOf_def TrimPrefix_def flag_def)
  have b: "(1::nat) < length ?args" "HasPrefix (?args ! 1) ''-''" "matched ?flags (?args ! 1) = None"
    by (simp_all add: HasPrefix_def matched_def matchFlag_def nameOf_def TrimPrefix_def flag_def)
  have "scanLoop noEnv ?flags ?args True 0 0 [VString []] []
          = scanLoop noEnv ?flags ?args True 1 0 [VString []] []"
    using scan_unmatched [OF a, of noEnv True 0 "[VString []]" "[]"] by simp
  also have "\<dots> = (Some ErrHelp, 0, [VString []], [])"
    using scan_unmatched [OF b, of noEnv True 0 "[VString []]" "[]"] by simp
  finally show ?thesis .
qed

subsection \<open>The written flags\<close>

text \<open>
  Every entry of \<^verbatim>\<open>WrittenFields\<close> starts with a dash, so the resolution pass
  never reaches its \<^verbatim>\<open>panic("unreachable")\<close>.
\<close>

lemma scanStep_written:
  "scanStep rt flags args canSet i vs wr = Skip j vs' wr' \<Longrightarrow>
     wr' = wr \<or> (\<exists>w. wr' = wr @ [w] \<and> HasPrefix w ''-'')"
  using flagLooking [of "args ! i"]
  by (auto simp: scanStep_def Let_def HasPrefix_def
           split: if_splits option.splits govalue.splits prod.splits)

lemma scanLoop_written:
  "scanLoop rt flags args canSet i m vs wr = (r, m', vs', wr') \<Longrightarrow>
     \<forall>w\<in>set wr. HasPrefix w ''-'' \<Longrightarrow> \<forall>w\<in>set wr'. HasPrefix w ''-''"
proof (induction rt flags args canSet i m vs wr rule: scanLoop.induct)
  case (1 rt flags args canSet i MaxIndex vs WrittenFields)
  show ?case
  proof (cases "i < length args")
    case False
    with "1.prems" show ?thesis by (simp add: scanLoop.simps)
  next
    case True
    show ?thesis
    proof (cases "scanStep rt flags args canSet i vs WrittenFields")
      case Break
      with True "1.prems" show ?thesis by (simp add: scanLoop.simps)
    next
      case (Fail e vs1)
      with True "1.prems" show ?thesis by (simp add: scanLoop.simps)
    next
      case (Skip j vs1 wr1)
      with True "1.prems" have rec: "scanLoop rt flags args canSet (j + 1) j vs1 wr1 = (r, m', vs', wr')"
        by (simp add: scanLoop.simps)
      from scanStep_written [OF Skip] "1.prems"(2) have "\<forall>w\<in>set wr1. HasPrefix w ''-''" by auto
      from "1.IH" [OF True Skip rec this] show ?thesis .
    qed
  qed
qed

lemma Found_total: "\<forall>w\<in>set wr. HasPrefix w ''-'' \<Longrightarrow> Found wr f \<noteq> None"
  by (induction wr) auto

lemma Found_append_hit:
  assumes "\<forall>w\<in>set wr. HasPrefix w ''-''"
    and "(HasPrefix e ''--'' \<and> drop 2 e = Name f)
          \<or> (\<not> HasPrefix e ''--'' \<and> HasPrefix e ''-'' \<and> Alias f \<noteq> None \<and> drop 1 e = the (Alias f))"
  shows "Found (wr @ e # later) f = Some True"
  using assms by (induction wr) auto

lemma Found_resolveFlag:
  "Found wr f = Some True \<Longrightarrow> resolveFlag rt canSet wr f vs = (None, vs)"
  by (simp add: resolveFlag_def)

lemma scanStep_matched:
  assumes "scanStep rt flags args canSet i vs wr = Skip j vs' wr'"
    and "matched flags (args ! i) = Some f"
  shows "wr' = wr @ [if Kind f = ''bool'' then ''--'' @ Name f else args ! i]"
  using assms
  by (auto simp: scanStep_def matched_def nameOf_def Let_def
           split: if_splits govalue.splits prod.splits option.splits)

lemma dash_long: "HasPrefix (''--'' @ n) ''--'' \<and> drop 2 (''--'' @ n) = n"
  by (simp add: HasPrefix_def)

lemma dash_short:
  "HasPrefix (''-'' @ a) ''-'' \<and> drop 1 (''-'' @ a) = a
    \<and> (\<not> HasPrefix a ''-'' \<longrightarrow> \<not> HasPrefix (''-'' @ a) ''--'')"
  by (cases a) (auto simp: HasPrefix_def)

lemmas scan_eval =
  scanLoop.simps scanStep_def bindFlags_def resolveFlag_def envValue_def
  setField_def matchFlag_def HasPrefix_def TrimPrefix_def Let_def flag_def

text \<open>
  C2, as the code has it. When a round of the scan has matched the flag \<open>f\<close>
  and reached \<^verbatim>\<open>skip\<close>, \<^verbatim>\<open>WrittenFields\<close> has one more entry: \<^verbatim>\<open>--\<close> and the
  flag's name for a boolean flag, the token as it was given for any other. If
  the flag is boolean, or the token was \<^verbatim>\<open>--\<close> and the flag's name, or \<^verbatim>\<open>-\<close>
  and its alias, then whatever is recorded later the resolution pass finds
  the flag written and leaves its field alone: no environment value, no
  default, no failure for a missing required flag.
\<close>

theorem written_recognised:
  assumes "scanStep rt flags args canSet i vs wr = Skip j vs' wr'"
    and "matched flags (args ! i) = Some f"
    and "\<forall>w\<in>set wr. HasPrefix w ''-''"
    and "Kind f = ''bool'' \<or> args ! i = ''--'' @ Name f
          \<or> (Alias f \<noteq> None \<and> args ! i = ''-'' @ the (Alias f) \<and> \<not> HasPrefix (the (Alias f)) ''-'')"
  shows "wr' = wr @ [if Kind f = ''bool'' then ''--'' @ Name f else args ! i]
         \<and> Found (wr' @ later) f = Some True
         \<and> resolveFlag rt2 canSet2 (wr' @ later) f vs2 = (None, vs2)"
proof -
  let ?e = "if Kind f = ''bool'' then ''--'' @ Name f else args ! i"
  have w: "wr' = wr @ [?e]" using assms(1,2) by (rule scanStep_matched)
  have "(HasPrefix ?e ''--'' \<and> drop 2 ?e = Name f)
          \<or> (\<not> HasPrefix ?e ''--'' \<and> HasPrefix ?e ''-'' \<and> Alias f \<noteq> None \<and> drop 1 ?e = the (Alias f))"
    using assms(4) dash_long [of "Name f"] dash_short [of "the (Alias f)"] by auto
  from Found_append_hit [OF assms(3) this, of later]
  have f: "Found (wr' @ later) f = Some True" using w by simp
  from w f Found_resolveFlag [OF f] show ?thesis by simp
qed

theorem written_recognised_witness:
  "scanStep noEnv [nameFlag] [''-n'', ''X''] True 0 [VString []] [] = Skip 1 [VString ''X''] [''-n'']
   \<and> Found [''-n''] nameFlag = Some True
   \<and> resolveFlag noEnv True [''-n''] nameFlag [VString ''X''] = (None, [VString ''X''])"
proof -
  have s: "scanStep noEnv [nameFlag] [''-n'', ''X''] True 0 [VString []] []
             = Skip 1 [VString ''X''] [''-n'']"
    by (simp add: scan_eval nameFlag_def)
  have m: "matched [nameFlag] ([''-n'', ''X''] ! 0) = Some nameFlag"
    by (simp add: matched_def nameOf_def matchFlag_def HasPrefix_def TrimPrefix_def
                  nameFlag_def flag_def)
  have w: "\<forall>w\<in>set ([]::string list). HasPrefix w ''-''" by simp
  have a: "Kind nameFlag = ''bool'' \<or> [''-n'', ''X''] ! 0 = ''--'' @ Name nameFlag
          \<or> (Alias nameFlag \<noteq> None \<and> [''-n'', ''X''] ! 0 = ''-'' @ the (Alias nameFlag)
              \<and> \<not> HasPrefix (the (Alias nameFlag)) ''-'')"
    by (simp add: nameFlag_def flag_def HasPrefix_def)
  from written_recognised [OF s m w a, of "[]" noEnv True "[VString ''X'']"] s
  show ?thesis by (simp add: nameFlag_def flag_def)
qed

text \<open>
  C2 as stated does not hold: the flag consumed from \<^verbatim>\<open>-n X\<close> is recorded as
  the token \<^verbatim>\<open>-n\<close>; the flag consumed from \<^verbatim>\<open>--!name X\<close> is recorded as the
  token \<^verbatim>\<open>--!name\<close>, under which the resolution pass does not find it, and
  the bind fails for a missing required flag whose field it has just set.
\<close>

theorem written_raw_counterexample:
  "scanLoop noEnv [nameFlag] [''-n'', ''X''] True 0 0 [VString []] []
     = (None, 1, [VString ''X''], [''-n''])
   \<and> scanLoop noEnv [nameFlag] [''--!name'', ''X''] True 0 0 [VString []] []
     = (None, 1, [VString ''X''], [''--!name''])
   \<and> Found [''--!name''] nameFlag = Some False
   \<and> bindFlags noEnv [nameFlag] [''--!name'', ''X''] True [VString []]
     = ([], Some (ErrRequiredMissing ''name''), [VString ''X''])
   \<and> Bind noEnv (VPtr requiredType (Some (zero requiredType))) [''--!name'', ''X'']
     = ([''--!name'', ''X''], Some (App (init noEnv (node requiredType ''demo'' [nameFlag] []))),
        Some (ErrRequiredMissing ''name''),
        VPtr requiredType (Some (VStruct ''Required''
          [StructField ''Name'' True TString
             [(''flag'', ''name''), (''alias'', ''n''), (''required'', ''true'')]]
          [VString ''X''])))"
  by (simp add: scan_eval build_eval bind_eval nameFlag_def requiredType_def noEnv_def init_def)

subsection \<open>Boolean flags\<close>

text \<open>
  On a field that is a bool and can be set, a matched boolean flag sets the
  field (false when the name had a leading \<^verbatim>\<open>!\<close>), consumes no other token and is
  recorded under \<^verbatim>\<open>--\<close> and its name.
\<close>

lemma scanStep_bool:
  assumes "HasPrefix (args ! i) ''-''" and "matched flags (args ! i) = Some f"
    and "Kind f = ''bool''" and "Index f < length vs" and "vs ! Index f = VBool b"
  shows "scanStep rt flags args True i vs wr =
           Skip i (vs[Index f := VBool (\<not> HasPrefix (if HasPrefix (args ! i) ''--''
                                                      then drop 2 (args ! i) else drop 1 (args ! i)) ''!'')])
                (wr @ [''--'' @ Name f])"
  using assms flagLooking [of "args ! i"]
  by (simp add: scanStep_def matched_def nameOf_def Let_def)

text \<open>
  C6. Every boolean-kind flag is set to true by \<^verbatim>\<open>--flag\<close> and to false by
  \<^verbatim>\<open>--!flag\<close>. The builder gives the kind \<^verbatim>\<open>bool\<close> to a field of type \<^verbatim>\<open>*bool\<close>
  too (it strips the pointers before it reads the kind), and the scan calls
  \<^verbatim>\<open>SetBool\<close> on the field itself, which for a pointer panics.
\<close>

theorem bool_pointer_flag_panics:
  "Bind noEnv (VPtr ptrBoolType (Some (zero ptrBoolType))) [''--verbose'']
     = ([''--verbose''], Some (App (init noEnv (node ptrBoolType ''demo'' [flag ''verbose'' ''bool'' 1] []))),
        Some (Panic ''reflect: call of reflect.Value.SetBool on non-bool Value''),
        VPtr ptrBoolType (Some (zero ptrBoolType)))"
  by (simp add: build_eval bind_eval ptrBoolType_def noEnv_def init_def)

subsection \<open>The remainder\<close>

text \<open>
  When the first token does not start with a dash the loop is left at
  \<open>i = 0\<close> with \<^verbatim>\<open>MaxIndex\<close> still \<open>0\<close>, and \<^verbatim>\<open>args[MaxIndex+1:]\<close> is returned: the
  first token is lost.
\<close>

lemma first_token_dropped:
  "\<not> HasPrefix tok ''-'' \<Longrightarrow> bindFlags rt [] (tok # rest) canSet vs = (rest, None, vs)"
  using flagLooking [of tok]
  by (simp add: bindFlags_def scanLoop.simps scanStep_def)

text \<open>
  When the first token does start with a dash and the bind succeeds, the
  remainder starts where the scan stopped: at the end of the arguments or at a
  token without a dash, one token at least having been consumed.
\<close>

lemma scanStep_Skip_lt:
  "scanStep rt flags args canSet i vs wr = Skip j vs' wr' \<Longrightarrow> i < length args \<Longrightarrow> j < length args"
  by (auto simp: scanStep_def Let_def
           split: if_splits option.splits govalue.splits prod.splits)

lemma scanStep_Break:
  "scanStep rt flags args canSet i vs wr = Break \<Longrightarrow> \<not> HasPrefix (args ! i) ''-''"
  using flagLooking [of "args ! i"]
  by (auto simp: scanStep_def Let_def
           split: if_splits option.splits govalue.splits prod.splits)

lemma scanLoop_stops:
  "scanLoop rt flags args canSet i m vs wr = (None, m', vs', wr') \<Longrightarrow> i \<le> length args \<Longrightarrow>
     (m' = m \<and> (i = length args \<or> \<not> HasPrefix (args ! i) ''-''))
     \<or> (i \<le> m' \<and> (Suc m' = length args \<or> (Suc m' < length args \<and> \<not> HasPrefix (args ! Suc m') ''-'')))"
proof (induction rt flags args canSet i m vs wr rule: scanLoop.induct)
  case (1 rt flags args canSet i MaxIndex vs WrittenFields)
  show ?case
  proof (cases "i < length args")
    case False
    with "1.prems" show ?thesis by (simp add: scanLoop.simps)
  next
    case True
    show ?thesis
    proof (cases "scanStep rt flags args canSet i vs WrittenFields")
      case Break
      with True "1.prems" have "m' = MaxIndex" by (simp add: scanLoop.simps)
      with scanStep_Break [OF Break] show ?thesis by simp
    next
      case (Fail e vs1)
      with True "1.prems" show ?thesis by (simp add: scanLoop.simps)
    next
      case (Skip j vs1 wr1)
      with True "1.prems" have rec: "scanLoop rt flags args canSet (j + 1) j vs1 wr1 = (None, m', vs', wr')"
        by (simp add: scanLoop.simps)
      from scanStep_Skip_ge [OF Skip] scanStep_Skip_lt [OF Skip True]
      have ij: "i \<le> j" "j + 1 \<le> length args" by simp_all
      from "1.IH" [OF True Skip rec ij(2)] ij show ?thesis by auto
    qed
  qed
qed

lemma remainder_after_flags:
  assumes "bindFlags rt flags args canSet vs = (ra, None, vs')"
    and "args \<noteq> []" and "HasPrefix (args ! 0) ''-''"
  shows "\<exists>k. 0 < k \<and> k \<le> length args \<and> ra = drop k args
             \<and> (k < length args \<longrightarrow> \<not> HasPrefix (args ! k) ''-'')"
proof -
  from assms(1) obtain m vs1 wr where
    sc: "scanLoop rt flags args canSet 0 0 vs [] = (None, m, vs1, wr)"
    and ra: "ra = drop (m + 1) args"
    using assms(2)
    by (auto simp: bindFlags_def split: prod.splits option.splits if_splits)
  from scanLoop_stops [OF sc] assms(2,3)
  have "Suc m = length args \<or> (Suc m < length args \<and> \<not> HasPrefix (args ! Suc m) ''-'')" by auto
  with ra show ?thesis by (intro exI [of _ "Suc m"]) auto
qed

text \<open>
  C4. The remainder is the first token that does not look like a flag and
  everything after it, also when that is the very first token. The code
  returns \<^verbatim>\<open>["args"]\<close> for \<^verbatim>\<open>["extra", "args"]\<close>.
\<close>

theorem Bind_drops_first_positional:
  "Bind noEnv (VPtr emptyType (Some (zero emptyType))) [''extra'', ''args'']
     = ([''args''], Some (App (init noEnv (node emptyType ''demo'' [] []))), None,
        VPtr emptyType (Some (zero emptyType)))"
  by (simp add: build_eval bind_eval emptyType_def noEnv_def init_def)

subsection \<open>Errors of Bind\<close>

text \<open>
  C10. When \<^verbatim>\<open>App.Bind\<close> returns an error, whichever it is, the slice it
  returns is the caller's \<open>args\<close>; and so for \<^verbatim>\<open>Bind\<close>, also when the error is
  that of \<^verbatim>\<open>NewApp\<close>.
\<close>

theorem Bind_error_returns_args:
  "(App_Bind rt a dst args = (ra, app, Some e, dst') \<longrightarrow> ra = args)
   \<and> (Bind rt dst args = (ra', app', Some e', dst'') \<longrightarrow> ra' = args)"
  by (auto simp: App_Bind_def Bind_def split: prod.splits if_splits sum.splits)

theorem Bind_error_returns_args_witness:
  "App_Bind noEnv (App (node emptyType ''demo'' [] [])) (VPtr emptyType (Some (zero emptyType)))
       [''--verbose'', ''--help'', ''x'']
     = ([''--verbose'', ''--help'', ''x''], App (init noEnv (node emptyType ''demo'' [] [])),
        Some ErrHelp, VPtr emptyType (Some (zero emptyType)))
   \<and> Bind noEnv (VPtr requiredType (Some (zero requiredType))) [''-n'']
     = ([''-n''], Some (App (init noEnv (node requiredType ''demo'' [nameFlag] []))),
        Some (ErrRequires ''n'' ''string''), VPtr requiredType (Some (zero requiredType)))
   \<and> Bind noEnv (VString ''not a struct'') [''a'', ''b'']
     = ([''a'', ''b''], None, Some ErrTypeNotSupported, VString ''not a struct'')"
proof -
  let ?r = "App_Bind noEnv (App (node emptyType ''demo'' [] []))
              (VPtr emptyType (Some (zero emptyType))) [''--verbose'', ''--help'', ''x'']"
  let ?b = "Bind noEnv (VPtr requiredType (Some (zero requiredType))) [''-n'']"
  let ?c = "Bind noEnv (VString ''not a struct'') [''a'', ''b'']"
  have A: "ra = args" if "App_Bind rt a dst args = (ra, app, Some e, dst')"
    for rt a dst args ra app e dst'
    using Bind_error_returns_args [of rt a dst args ra app e dst'] that by blast
  have B: "ra = args" if "Bind rt dst args = (ra, app, Some e, dst')"
    for rt dst args ra app e dst'
    using Bind_error_returns_args [where rt = rt and dst = dst and args = args and ra' = ra
        and app' = app and e' = e and dst'' = dst'] that by blast
  have e: "snd ?r = (App (init noEnv (node emptyType ''demo'' [] [])), Some ErrHelp,
                     VPtr emptyType (Some (zero emptyType)))"
    by (simp add: bind_eval emptyType_def)
  then have "?r = (fst ?r, App (init noEnv (node emptyType ''demo'' [] [])), Some ErrHelp,
                   VPtr emptyType (Some (zero emptyType)))"
    by (metis prod.collapse)
  from A [OF this] have "fst ?r = [''--verbose'', ''--help'', ''x'']" .
  with e have first: "?r = ([''--verbose'', ''--help'', ''x''],
      App (init noEnv (node emptyType ''demo'' [] [])), Some ErrHelp,
      VPtr emptyType (Some (zero emptyType)))"
    by (metis prod.collapse)
  have f: "snd ?b = (Some (App (init noEnv (node requiredType ''demo'' [nameFlag] []))),
                     Some (ErrRequires ''n'' ''string''), VPtr requiredType (Some (zero requiredType)))"
    by (simp add: build_eval bind_eval requiredType_def nameFlag_def noEnv_def init_def)
  then have "?b = (fst ?b, Some (App (init noEnv (node requiredType ''demo'' [nameFlag] []))),
                   Some (ErrRequires ''n'' ''string''), VPtr requiredType (Some (zero requiredType)))"
    by (metis prod.collapse)
  from B [OF this] have "fst ?b = [''-n'']" .
  with f have second: "?b = ([''-n''], Some (App (init noEnv (node requiredType ''demo'' [nameFlag] []))),
        Some (ErrRequires ''n'' ''string''), VPtr requiredType (Some (zero requiredType)))"
    by (metis prod.collapse)
  have third: "?c = ([''a'', ''b''], None, Some ErrTypeNotSupported, VString ''not a struct'')"
    by (simp add: build_eval)
  from first second third show ?thesis by simp
qed

subsection \<open>The resolution pass\<close>

lemma setField_frame:
  "setField rt canSet vs idx s e = (r, vs') \<Longrightarrow> length vs' = length vs \<and> (\<forall>j. j \<noteq> idx \<longrightarrow> vs' ! j = vs ! j)"
  by (auto simp: setField_def split: if_splits prod.splits option.splits error.splits)

lemma setField_value:
  "setField rt canSet vs idx s e = (None, vs') \<Longrightarrow> idx < length vs \<and> vs' ! idx = fst (setValue rt canSet (vs ! idx) s)"
  by (auto simp: setField_def split: if_splits prod.splits option.splits error.splits)

lemma resolveFlag_frame:
  "resolveFlag rt canSet wr g vs = (r, vs') \<Longrightarrow> length vs' = length vs \<and> (\<forall>j. j \<noteq> Index g \<longrightarrow> vs' ! j = vs ! j)"
  by (auto simp: resolveFlag_def split: option.splits bool.splits if_splits dest: setField_frame)

lemma resolveFlags_frame:
  "resolveFlags rt canSet wr gs vs = (r, vs') \<Longrightarrow>
     length vs' = length vs \<and> (\<forall>j. j \<notin> Index ` set gs \<longrightarrow> vs' ! j = vs ! j)"
proof (induction gs arbitrary: vs)
  case Nil
  then show ?case by simp
next
  case (Cons g gs)
  obtain r1 vs1 where g: "resolveFlag rt canSet wr g vs = (r1, vs1)" by (cases "resolveFlag rt canSet wr g vs")
  note fr = resolveFlag_frame [OF g]
  show ?case
  proof (cases r1)
    case (Some e)
    with Cons.prems g have "vs' = vs1" by simp
    with fr show ?thesis by simp
  next
    case None
    with Cons.prems g have "resolveFlags rt canSet wr gs vs1 = (r, vs')" by simp
    from Cons.IH [OF this] fr show ?thesis by simp
  qed
qed

lemma resolveFlag_resolved:
  "resolveFlag rt canSet wr f vs = (None, vs') \<Longrightarrow> Index f < length vs
     \<Longrightarrow> resolved rt canSet wr f (vs ! Index f) (vs' ! Index f)"
  by (auto simp: resolveFlag_def resolved_def split: option.splits bool.splits if_splits dest: setField_value)

lemma resolveFlags_resolved:
  "distinct (map Index flags) \<Longrightarrow> resolveFlags rt canSet wr flags vs = (None, vs')
    \<Longrightarrow> f \<in> set flags \<Longrightarrow> Index f < length vs
    \<Longrightarrow> resolved rt canSet wr f (vs ! Index f) (vs' ! Index f)"
proof (induction flags arbitrary: vs)
  case Nil
  then show ?case by simp
next
  case (Cons g gs)
  obtain r1 vs1 where g: "resolveFlag rt canSet wr g vs = (r1, vs1)" by (cases "resolveFlag rt canSet wr g vs")
  with Cons.prems(2) have r1: "r1 = None" and rest: "resolveFlags rt canSet wr gs vs1 = (None, vs')"
    by (auto split: option.splits)
  note fr = resolveFlag_frame [OF g]
  show ?case
  proof (cases "f = g")
    case True
    from Cons.prems(1) True have "Index f \<notin> Index ` set gs" by auto
    with resolveFlags_frame [OF rest] have "vs' ! Index f = vs1 ! Index f" by simp
    with resolveFlag_resolved [OF g [unfolded r1]] True Cons.prems(4) show ?thesis by simp
  next
    case False
    with Cons.prems(3) have mem: "f \<in> set gs" by simp
    then have "Index f \<in> set (map Index gs)" by simp
    moreover from Cons.prems(1) have "Index g \<notin> set (map Index gs)" by simp
    ultimately have ne: "Index f \<noteq> Index g" by metis
    from Cons.prems(1) have d: "distinct (map Index gs)" by simp
    from fr Cons.prems(4) have len: "Index f < length vs1" by simp
    from Cons.IH [OF d rest mem len] fr ne show ?thesis by simp
  qed
qed

lemma resolveFlags_required:
  "f \<in> set flags \<Longrightarrow> Found wr f \<noteq> Some True \<Longrightarrow> envValue rt f = None \<Longrightarrow> Default f = None
    \<Longrightarrow> Required f \<Longrightarrow> \<exists>e vs'. resolveFlags rt canSet wr flags vs = (Some e, vs')"
proof (induction flags arbitrary: vs)
  case Nil
  then show ?case by simp
next
  case (Cons g gs)
  obtain r1 vs1 where g: "resolveFlag rt canSet wr g vs = (r1, vs1)" by (cases "resolveFlag rt canSet wr g vs")
  show ?case
  proof (cases r1)
    case (Some e)
    with g show ?thesis by simp
  next
    case None
    have "f \<noteq> g"
    proof
      assume "f = g"
      with Cons.prems g None show False
        by (auto simp: resolveFlag_def split: option.splits bool.splits)
    qed
    with Cons.prems have "f \<in> set gs" by simp
    from Cons.IH [OF this Cons.prems(2-5), of vs1] g None show ?thesis by simp
  qed
qed

text \<open>
  The order of the pass. Take a bind whose scan has ended without an error,
  with the fields \<open>vs\<close> and the written flags \<open>wr\<close>, and a flag \<open>f\<close> of the schema. If
  the bind succeeds, the field of \<open>f\<close> is: what the scan left there when \<open>f\<close> is
  found written; else what \<^verbatim>\<open>setValue\<close> makes of it with the environment value,
  when \<open>f\<close> declares a variable that is set; else what \<^verbatim>\<open>setValue\<close> makes of it
  with the default, when \<open>f\<close> declares one; else what it was, and then \<open>f\<close> is not
  required. If \<open>f\<close> is not written, has no environment value and no default, and
  is required, the bind fails. (No two flags share a field: \<open>buildCommand_schema\<close>.)
\<close>

lemma bind_precedence:
  assumes "distinct (map Index flags)"
    and "scanLoop rt flags args canSet 0 0 vs0 [] = (None, m, vs, wr)"
    and "f \<in> set flags" and "Index f < length vs"
  shows "(\<forall>ra vs'. bindFlags rt flags args canSet vs0 = (ra, None, vs') \<longrightarrow>
            (if Found wr f = Some True then vs' ! Index f = vs ! Index f
             else case envValue rt f of
                    Some v \<Rightarrow> vs' ! Index f = fst (setValue rt canSet (vs ! Index f) v)
                  | None \<Rightarrow>
                      (case Default f of
                         Some d \<Rightarrow> vs' ! Index f = fst (setValue rt canSet (vs ! Index f) d)
                       | None \<Rightarrow> \<not> Required f \<and> vs' ! Index f = vs ! Index f)))
       \<and> (Found wr f \<noteq> Some True \<and> envValue rt f = None \<and> Default f = None \<and> Required f \<longrightarrow>
            (\<exists>e vs'. bindFlags rt flags args canSet vs0 = ([], Some e, vs')))"
proof (intro conjI allI impI)
  fix ra vs'
  assume "bindFlags rt flags args canSet vs0 = (ra, None, vs')"
  with assms(2) have "resolveFlags rt canSet wr flags vs = (None, vs')"
    by (auto simp: bindFlags_def split: prod.splits option.splits)
  from resolveFlags_resolved [OF assms(1) this assms(3,4)]
  show "if Found wr f = Some True then vs' ! Index f = vs ! Index f
             else case envValue rt f of
                    Some v \<Rightarrow> vs' ! Index f = fst (setValue rt canSet (vs ! Index f) v)
                  | None \<Rightarrow>
                      (case Default f of
                         Some d \<Rightarrow> vs' ! Index f = fst (setValue rt canSet (vs ! Index f) d)
                       | None \<Rightarrow> \<not> Required f \<and> vs' ! Index f = vs ! Index f)"
    by (simp add: resolved_def)
next
  assume "Found wr f \<noteq> Some True \<and> envValue rt f = None \<and> Default f = None \<and> Required f"
  then have "\<exists>e vs'. resolveFlags rt canSet wr flags vs = (Some e, vs')"
    using resolveFlags_required [OF assms(3)] by blast
  then obtain e vs' where "resolveFlags rt canSet wr flags vs = (Some e, vs')" by blast
  with assms(2) show "\<exists>e vs'. bindFlags rt flags args canSet vs0 = ([], Some e, vs')"
    by (simp add: bindFlags_def)
qed

text \<open>The order on the server example, and a required flag that nothing provides.\<close>

lemma bind_precedence_example:
  "bindFlags portEnv serverFlags [''--host'', ''example''] True serverZero
     = ([], None, [VString ''example'', VInt W 8080, VString ''fast'', VString []])
   \<and> bindFlags portEnv [nameFlag] [] True [VString []]
     = ([], Some (ErrRequiredMissing ''name''), [VString []])"
proof -
  let ?args = "[''--host'', ''example'']"
  let ?vs = "[VString ''example'', VInt W 0, VString [], VString []]"
  let ?r = "bindFlags portEnv serverFlags ?args True serverZero"
  have d: "distinct (map Index serverFlags)" by (simp add: serverFlags_def flag_def)
  have sc: "scanLoop portEnv serverFlags ?args True 0 0 serverZero [] = (None, 1, ?vs, [''--host''])"
    by (simp add: scan_eval serverFlags_def serverZero_def)
  have ok: "fst (snd ?r) = None \<and> fst ?r = [] \<and> length (snd (snd ?r)) = 4"
    by (simp add: scan_eval serverFlags_def serverZero_def portEnv_def noEnv_def
                  setValue_VInt strconv_defs)
  then have r: "?r = ([], None, snd (snd ?r))" by (metis prod.collapse)
  have f0: "Found [''--host''] (serverFlags ! 0) = Some True"
    and f1: "Found [''--host''] (serverFlags ! 1) \<noteq> Some True" "envValue portEnv (serverFlags ! 1) = Some ''8080''"
    and f2: "Found [''--host''] (serverFlags ! 2) \<noteq> Some True" "envValue portEnv (serverFlags ! 2) = None"
            "Default (serverFlags ! 2) = Some ''fast''"
    and f3: "Found [''--host''] (serverFlags ! 3) \<noteq> Some True" "envValue portEnv (serverFlags ! 3) = None"
            "Default (serverFlags ! 3) = None"
    by (simp_all add: serverFlags_def flag_def HasPrefix_def envValue_def portEnv_def noEnv_def)
  have i: "Index (serverFlags ! 0) = 0" "Index (serverFlags ! 1) = 1" "Index (serverFlags ! 2) = 2"
    "Index (serverFlags ! 3) = 3"
    by (simp_all add: serverFlags_def flag_def)
  have mem: "serverFlags ! 0 \<in> set serverFlags" "serverFlags ! 1 \<in> set serverFlags"
    "serverFlags ! 2 \<in> set serverFlags" "serverFlags ! 3 \<in> set serverFlags"
    by (simp_all add: serverFlags_def)
  have v0: "snd (snd ?r) ! 0 = VString ''example''"
    using bind_precedence [OF d sc mem(1)] r f0 i by simp
  have v1: "snd (snd ?r) ! 1 = VInt W 8080"
    using bind_precedence [OF d sc mem(2)] r f1 i by (simp add: setValue_VInt strconv_defs)
  have v2: "snd (snd ?r) ! 2 = VString ''fast''"
    using bind_precedence [OF d sc mem(3)] r f2 i by simp
  have v3: "snd (snd ?r) ! 3 = VString []"
    using bind_precedence [OF d sc mem(4)] r f3 i by simp
  from ok have "length (snd (snd ?r)) = 4" by simp
  with v0 v1 v2 v3 have "snd (snd ?r) = [VString ''example'', VInt W 8080, VString ''fast'', VString []]"
    by (intro nth_equalityI) (auto simp: less_Suc_eq numeral_eq_Suc)
  with r have first: "?r = ([], None, [VString ''example'', VInt W 8080, VString ''fast'', VString []])"
    by simp
  have d1: "distinct (map Index [nameFlag])" by simp
  have sc1: "scanLoop portEnv [nameFlag] [] True 0 0 [VString []] [] = (None, 0, [VString []], [])"
    by (simp add: scanLoop.simps)
  have u: "Found [] nameFlag \<noteq> Some True \<and> envValue portEnv nameFlag = None \<and> Default nameFlag = None
            \<and> Required nameFlag"
    by (simp add: nameFlag_def flag_def envValue_def)
  from bind_precedence [OF d1 sc1, of nameFlag] u
  obtain e vs' where "bindFlags portEnv [nameFlag] [] True [VString []] = ([], Some e, vs')"
    by (auto simp: nameFlag_def flag_def)
  moreover have "snd (bindFlags portEnv [nameFlag] [] True [VString []])
                   = (Some (ErrRequiredMissing ''name''), [VString []])"
    by (simp add: scan_eval nameFlag_def)
  ultimately have second: "bindFlags portEnv [nameFlag] [] True [VString []]
     = ([], Some (ErrRequiredMissing ''name''), [VString []])" by simp
  from first second show ?thesis by simp
qed

text \<open>
  \<^verbatim>\<open>setValue\<close> has no case for a boolean destination: it returns without an error
  and without a write, whatever the text.
\<close>

lemma setValue_VBool: "setValue rt True (VBool b) s = (VBool b, None)"
  by (simp add: setValue.simps)

text \<open>
  C1. A flag that is not written and has no environment value but declares a
  default holds the coerced default after the bind. The code leaves the
  boolean field of a flag with \<^verbatim>\<open>default:"true"\<close> at \<open>false\<close>, and the bind succeeds.
\<close>

theorem bool_default_ignored:
  "Bind noEnv (VPtr defaultBoolType (Some (zero defaultBoolType))) []
     = ([], Some (App (init noEnv (node defaultBoolType ''demo''
                         [(flag ''verbose'' ''bool'' 1)\<lparr>Default := Some ''true''\<rparr>] []))), None,
        VPtr defaultBoolType (Some (VStruct ''Switch''
          [StructField ''_'' False (TStruct [] []) [],
           StructField ''Verbose'' True TBool [(''flag'', ''verbose''), (''default'', ''true'')]]
          [VStruct [] [] [], VBool False])))
     \<and> ParseBool ''true'' = Some True"
  by (simp add: build_eval bind_eval setValue_VBool defaultBoolType_def noEnv_def init_def ParseBool_def)

subsection \<open>Subcommands\<close>

lemma bindCommand_struct:
  assumes "derefAlloc canSet dst0 = Inr (settable, VStruct n fs vs, rebuild)"
    and "Type cmd0 = TStruct n fs"
  shows "bindCommand rt cmd0 args canSet dst0 =
     (case (if length args > 0 then find (\<lambda>s. Command s = args ! 0) (SubCommands (init rt cmd0)) else None) of
        Some sub \<Rightarrow>
          if \<not> CmdIndex sub < length vs
          then ([], init rt cmd0, Some (Panic ''reflect: Field index out of range''), rebuild (VStruct n fs vs))
          else
            (case bindCommand rt sub (drop 1 args) settable (vs ! CmdIndex sub) of
               (ra, nd, err, v) \<Rightarrow> (ra, nd, err, rebuild (VStruct n fs (vs[CmdIndex sub := v]))))
      | None \<Rightarrow>
          (case bindFlags rt (Flags cmd0) args settable vs of
             (ra, err, vs') \<Rightarrow> (ra, init rt cmd0, err, rebuild (VStruct n fs vs'))))"
  using assms
  by (subst bindCommand.simps)
     (simp add: Let_def del: init_sel(5) cong: option.case_cong if_cong prod.case_cong)

lemma derefAlloc_True: "\<exists>a v rb. derefAlloc True u = Inr (a, v, rb)"
proof (induction "True" u rule: derefAlloc.induct)
  case (1 t)
  then show ?case by auto
next
  case (2 t u)
  then show ?case by auto
qed auto

lemma derefAlloc_nil:
  "\<exists>a v rb. derefAlloc True (VPtr t None) = Inr (a, v, \<lambda>x. VPtr t (Some (rb x)))"
  using derefAlloc_True [of "zero t"] by auto

lemma bindCommand_allocates:
  "\<exists>ra nd err u. bindCommand rt c args True (VPtr t None) = (ra, nd, err, VPtr t (Some u))"
proof -
  from derefAlloc_True [of "zero t"] obtain a v rb where
    d: "derefAlloc True (zero t) = Inr (a, v, rb)" by blast
  show ?thesis
    by (subst bindCommand.simps)
       (auto simp: d Let_def simp del: init_sel(5) split: govalue.splits option.splits prod.splits)
qed

lemma find_none_names:
  "(\<forall>s\<in>set (SubCommands cmd0). Command s \<noteq> tok)
     \<Longrightarrow> find (\<lambda>s. Command s = tok) (SubCommands (init rt cmd0)) = None"
  by (auto simp: find_None_iff)

text \<open>
  C3. Let the instance be a struct of the node's type (behind any pointers).
  If the first token is the name of a subcommand, the result of the bind is
  the result of binding the first such subcommand to the remaining tokens and
  to the field at its index, and of the parent only that field changes. If
  there is no token, or the first token is the name of no subcommand, the
  result is that of the flag scan and resolution at this level, in which
  subcommands play no part. Binding into a nil pointer that can be set
  allocates it.
\<close>

theorem subcommand_dispatch:
  assumes "derefAlloc canSet dst0 = Inr (settable, VStruct n fs vs, rebuild)"
    and "Type cmd0 = TStruct n fs"
  shows
   "(\<forall>tok rest sub.
        find (\<lambda>s. Command s = tok) (SubCommands (init rt cmd0)) = Some sub \<and> CmdIndex sub < length vs \<longrightarrow>
        bindCommand rt cmd0 (tok # rest) canSet dst0 =
          (case bindCommand rt sub rest settable (vs ! CmdIndex sub) of
             (ra, nd, err, v) \<Rightarrow> (ra, nd, err, rebuild (VStruct n fs (vs[CmdIndex sub := v])))))
    \<and> (\<forall>args. args = [] \<or> (\<forall>s\<in>set (SubCommands cmd0). Command s \<noteq> hd args) \<longrightarrow>
        bindCommand rt cmd0 args canSet dst0 =
          (case bindFlags rt (Flags cmd0) args settable vs of
             (ra, err, vs') \<Rightarrow> (ra, init rt cmd0, err, rebuild (VStruct n fs vs'))))
    \<and> (\<forall>c a t. \<exists>ra nd err u. bindCommand rt c a True (VPtr t None) = (ra, nd, err, VPtr t (Some u)))"
proof (intro conjI allI impI)
  fix tok rest sub
  assume "find (\<lambda>s. Command s = tok) (SubCommands (init rt cmd0)) = Some sub \<and> CmdIndex sub < length vs"
  then show "bindCommand rt cmd0 (tok # rest) canSet dst0 =
          (case bindCommand rt sub rest settable (vs ! CmdIndex sub) of
             (ra, nd, err, v) \<Rightarrow> (ra, nd, err, rebuild (VStruct n fs (vs[CmdIndex sub := v]))))"
    by (simp add: bindCommand_struct [OF assms] del: init_sel(5))
next
  fix args :: "string list"
  assume a: "args = [] \<or> (\<forall>s\<in>set (SubCommands cmd0). Command s \<noteq> hd args)"
  have "(if length args > 0 then find (\<lambda>s. Command s = args ! 0) (SubCommands (init rt cmd0)) else None) = None"
  proof (cases args)
    case Nil
    then show ?thesis by simp
  next
    case (Cons tok rest)
    with a have "\<forall>s\<in>set (SubCommands cmd0). Command s \<noteq> tok" by simp
    from find_none_names [OF this] Cons show ?thesis by (simp del: init_sel(5))
  qed
  then show "bindCommand rt cmd0 args canSet dst0 =
          (case bindFlags rt (Flags cmd0) args settable vs of
             (ra, err, vs') \<Rightarrow> (ra, init rt cmd0, err, rebuild (VStruct n fs vs')))"
    by (simp add: bindCommand_struct [OF assms] del: init_sel(5))
next
  fix c a t
  show "\<exists>ra nd err u. bindCommand rt c a True (VPtr t None) = (ra, nd, err, VPtr t (Some u))"
    by (rule bindCommand_allocates)
qed

theorem subcommand_dispatch_witness:
  "(case bindCommand noEnv subcommandApp [''add'', ''--a'', ''1'', ''--b'', ''2''] False
           (VPtr subcommandType (Some (zero subcommandType))) of
      (ra, nd, err, v) \<Rightarrow>
        ra = [] \<and> Command nd = ''add'' \<and> err = None
        \<and> v = VPtr subcommandType (Some (VStruct ''SubcommandApp'' subcommandFields
                 [VStruct [] [] [], VString [], VInt W 0,
                  VPtr addType (Some (VStruct ''AddApp'' addFields
                    [VStruct [] [] [], VInt W 1, VInt W 2]))])))
   \<and> (case bindCommand noEnv subcommandApp [''--name'', ''Ann'', ''add''] False
           (VPtr subcommandType (Some (zero subcommandType))) of
      (ra, nd, err, v) \<Rightarrow>
        ra = [''add''] \<and> Command nd = ''SubcommandApp'' \<and> err = None
        \<and> v = VPtr subcommandType (Some (VStruct ''SubcommandApp'' subcommandFields
                 [VStruct [] [] [], VString ''Ann'', VInt W 42, VPtr addType None])))"
proof -
  let ?vs = "[VStruct [] [] [], VString [], VInt W 0, VPtr addType None]"
  let ?sub = "initFrom noEnv (Some [''SubcommandApp'']) addCmd"
  let ?added = "VPtr addType (Some (VStruct ''AddApp'' addFields [VStruct [] [] [], VInt W 1, VInt W 2]))"
  have z: "zero subcommandType = VStruct ''SubcommandApp'' subcommandFields ?vs"
    by (simp add: subcommandType_def subcommandFields_def)
  have d: "derefAlloc False (VPtr subcommandType (Some (zero subcommandType)))
             = Inr (True, VStruct ''SubcommandApp'' subcommandFields ?vs,
                    \<lambda>x. VPtr subcommandType (Some x))"
    by (simp add: z)
  have ty: "Type subcommandApp = TStruct ''SubcommandApp'' subcommandFields"
    by (simp add: subcommandApp_def node_def subcommandType_def)
  note disp = subcommand_dispatch [OF d ty, of noEnv]
  have f: "find (\<lambda>s. Command s = ''add'') (SubCommands (init noEnv subcommandApp)) = Some ?sub
            \<and> CmdIndex ?sub < length ?vs"
    by (simp add: subcommandApp_def node_def addCmd_def)
  have child: "bindCommand noEnv ?sub [''--a'', ''1'', ''--b'', ''2''] True (?vs ! CmdIndex ?sub)
                 = ([], init noEnv ?sub, None, ?added)"
    by (simp add: bind_eval addCmd_def addType_def addFields_def setValue_VInt strconv_defs)
  from disp f have "bindCommand noEnv subcommandApp (''add'' # [''--a'', ''1'', ''--b'', ''2'']) False
           (VPtr subcommandType (Some (zero subcommandType)))
      = (case bindCommand noEnv ?sub [''--a'', ''1'', ''--b'', ''2''] True (?vs ! CmdIndex ?sub) of
           (ra, nd, err, v) \<Rightarrow>
             (ra, nd, err, VPtr subcommandType
                (Some (VStruct ''SubcommandApp'' subcommandFields (?vs[CmdIndex ?sub := v])))))"
    by blast
  with child have first:
    "bindCommand noEnv subcommandApp [''add'', ''--a'', ''1'', ''--b'', ''2''] False
           (VPtr subcommandType (Some (zero subcommandType)))
      = ([], init noEnv ?sub, None, VPtr subcommandType (Some (VStruct ''SubcommandApp''
            subcommandFields [VStruct [] [] [], VString [], VInt W 0, ?added])))"
    by (simp add: addCmd_def)
  have n: "[''--name'', ''Ann'', ''add''] = []
            \<or> (\<forall>s\<in>set (SubCommands subcommandApp). Command s \<noteq> hd [''--name'', ''Ann'', ''add''])"
    by (simp add: subcommandApp_def node_def addCmd_def)
  have flags: "bindFlags noEnv (Flags subcommandApp) [''--name'', ''Ann'', ''add''] True ?vs
      = ([''add''], None, [VStruct [] [] [], VString ''Ann'', VInt W 42, VPtr addType None])"
    by (simp add: scan_eval subcommandApp_def node_def setValue_VInt strconv_defs)
  from disp n have "bindCommand noEnv subcommandApp [''--name'', ''Ann'', ''add''] False
           (VPtr subcommandType (Some (zero subcommandType)))
      = (case bindFlags noEnv (Flags subcommandApp) [''--name'', ''Ann'', ''add''] True ?vs of
           (ra, err, vs') \<Rightarrow>
             (ra, init noEnv subcommandApp, err,
              VPtr subcommandType (Some (VStruct ''SubcommandApp'' subcommandFields vs'))))"
    by blast
  with flags have second:
    "bindCommand noEnv subcommandApp [''--name'', ''Ann'', ''add''] False
           (VPtr subcommandType (Some (zero subcommandType)))
      = ([''add''], init noEnv subcommandApp, None, VPtr subcommandType (Some (VStruct ''SubcommandApp''
            subcommandFields [VStruct [] [] [], VString ''Ann'', VInt W 42, VPtr addType None])))"
    by simp
  from first second show ?thesis by (simp add: addCmd_def subcommandApp_def node_def)
qed

section \<open>The help text\<close>

lemma initFrom_idem: "initFrom rt' p (initFrom rt p a) = initFrom rt p a"
proof (induction rt p a rule: initFrom.induct)
  case (1 rt p once p0 ty name idx au ab la ve flags subs hlp)
  let ?chain = "Some (name # (case p of Some ps \<Rightarrow> ps | None \<Rightarrow> []))"
  have "map (\<lambda>s. initFrom rt' ?chain (initFrom rt ?chain s)) subs = map (initFrom rt ?chain) subs"
    by (rule map_cong) (simp_all add: 1)
  then show ?case by (simp add: comp_def)
qed

lemma init_idem: "init rt' (init rt a) = init rt a"
  by (simp add: init_def initFrom_idem)

lemma Help_initFrom:
  "Help (initFrom rt p a) =
     (if initOnce a then Help a else renderHelp rt p (Command a) (Flags a) (SubCommands a))"
  by (cases a) simp

text \<open>
  C9. Initialising a node again, whatever would be rendered now, changes
  nothing; asking for the help text a second time returns the same text and
  leaves the application as it was; the text is the stored one when the node's
  \<^verbatim>\<open>sync.Once\<close> has run and is rendered otherwise; the flags and the
  subcommands are those the node had, in the same order.
\<close>

theorem help_memoized:
  "init rt' (init rt a) = init rt a
   \<and> App_Help rt' (snd (App_Help rt app)) = App_Help rt app
   \<and> fst (App_Help rt app)
       = (if initOnce (app_c app) then Help (app_c app)
          else renderHelp rt (Parent (app_c app)) (Command (app_c app)) (Flags (app_c app))
                 (SubCommands (app_c app)))
   \<and> Flags (init rt a) = Flags a
   \<and> map Command (SubCommands (init rt a)) = map Command (SubCommands a)
   \<and> map Flags (SubCommands (init rt a)) = map Flags (SubCommands a)"
  by (simp add: init_idem App_Help_def comp_def) (simp add: init_def Help_initFrom)

end
